theory Spec2Isabelle
  imports Main "HOL-Library.Sublist"
begin

section \<open>Go values used by the provider\<close>

text \<open>
  Go strings are byte sequences, modelled as \<open>string\<close> (a list of 8-bit characters).
  A Go \<open>error\<close> is modelled by the datatype below. \<open>Errorf\<close> carries the
  message of a \<open>fmt.Errorf\<close> call without verbs. \<open>LdapError\<close> is a
  \<open>*ldap.Error\<close> with its \<open>ResultCode\<close>. \<open>ValidationFailed dn errors\<close> stands for
  \<open>fmt.Errorf("validation failed for DN %q: %v", dn, errors)\<close>: it keeps the two
  arguments instead of rendering them. \<open>NumError s\<close> is the error of
  \<open>strconv.Atoi s\<close>. \<open>OtherError\<close> is any other error a connection may return
  (a network failure, for instance).
\<close>

datatype go_error =
    Errorf string
  | LdapError (ResultCode: nat) string
  | ValidationFailed string "go_error list"
  | NumError string
  | OtherError string

definition LDAPResultNoSuchObject :: nat where
  "LDAPResultNoSuchObject = 32"

definition LDAPResultNoSuchAttribute :: nat where
  "LDAPResultNoSuchAttribute = 16"

definition LDAPResultAttributeOrValueExists :: nat where
  "LDAPResultAttributeOrValueExists = 20"

subsection \<open>Package strings\<close>

text \<open>
  \<open>strings.ToUpper\<close>, on the ASCII letters. Bytes outside \<open>a..z\<close> are left as they
  are; Go maps other letters by their Unicode case, and no rune other than
  \<open>c\<close>, \<open>n\<close> has \<open>C\<close>, \<open>N\<close> as its upper case, which is all the
  caller below looks at.
\<close>

definition toUpper_char :: "char \<Rightarrow> char" where
  "toUpper_char c =
     (let n = (of_char c :: nat)
      in if 97 \<le> n \<and> n \<le> 122 then char_of (n - 32) else c)"

definition ToUpper :: "string \<Rightarrow> string" where
  "ToUpper s = map toUpper_char s"

definition HasPrefix :: "string \<Rightarrow> string \<Rightarrow> bool" where
  "HasPrefix s pre = prefix pre s"

text \<open>
  \<open>strings.SplitN(s, sep, n)\<close> for a one-byte separator and \<open>n \<ge> 0\<close>: no piece for
  \<open>n = 0\<close>; otherwise the text before each separator, at most \<open>n\<close> pieces, the last
  of them the unsplit rest.
\<close>

fun SplitN :: "string \<Rightarrow> char \<Rightarrow> nat \<Rightarrow> string list" where
  "SplitN s sep 0 = []"
| "SplitN [] sep (Suc n) = [[]]"
| "SplitN (c # cs) sep (Suc n) =
     (if n = 0 then [c # cs]
      else if c = sep then [] # SplitN cs sep n
      else (case SplitN cs sep (Suc n) of
              [] \<Rightarrow> [[c]]
            | p # ps \<Rightarrow> (c # p) # ps))"

subsection \<open>Package strconv\<close>

definition digit_char :: "nat \<Rightarrow> char" where
  "digit_char n = ''0123456789'' ! n"

fun Itoa_nat :: "nat \<Rightarrow> string" where
  "Itoa_nat n = (if n < 10 then [digit_char n] else Itoa_nat (n div 10) @ [digit_char (n mod 10)])"

declare Itoa_nat.simps [simp del]

text \<open>\<open>strconv.Itoa\<close>: the decimal rendering, with a minus sign for a negative value.\<close>

definition Itoa :: "int \<Rightarrow> string" where
  "Itoa i = (if i < 0 then CHR ''-'' # Itoa_nat (nat (- i)) else Itoa_nat (nat i))"

definition is_digit :: "char \<Rightarrow> bool" where
  "is_digit c = (48 \<le> (of_char c :: nat) \<and> (of_char c :: nat) \<le> 57)"

fun parse_digits :: "string \<Rightarrow> nat \<Rightarrow> nat" where
  "parse_digits [] acc = acc"
| "parse_digits (c # cs) acc = parse_digits cs (10 * acc + ((of_char c :: nat) - 48))"

text \<open>
  \<open>strconv.Atoi\<close> on a 64-bit platform: an optional sign, then at least one decimal
  digit and nothing else; a value outside the range of \<open>int\<close> is an error.
\<close>

definition Atoi :: "string \<Rightarrow> go_error + int" where
  "Atoi s =
     (let (neg, ds) = (case s of
                         c # cs \<Rightarrow> if c = CHR ''-'' then (True, cs)
                                   else if c = CHR ''+'' then (False, cs)
                                   else (False, s)
                       | [] \<Rightarrow> (False, s))
      in if ds = [] \<or> \<not> list_all is_digit ds then Inl (NumError s)
         else let v = (if neg then - int (parse_digits ds 0) else int (parse_digits ds 0))
              in if v < - (2 ^ 63) \<or> 2 ^ 63 \<le> v then Inl (NumError s) else Inr v)"

section \<open>The go-ldap request and result types\<close>

datatype Attribute = Attribute (Type: string) (Vals: "string list")

datatype AddRequest = AddRequest (DN: string) (Attributes: "Attribute list")

definition NewAddRequest :: "string \<Rightarrow> AddRequest" where
  "NewAddRequest dn = AddRequest dn []"

text \<open>\<open>(*AddRequest).Attribute\<close> appends one attribute to the request.\<close>

definition AddRequest_Attribute :: "AddRequest \<Rightarrow> string \<Rightarrow> string list \<Rightarrow> AddRequest" where
  "AddRequest_Attribute req attrType attrVals =
     AddRequest (DN req) (Attributes req @ [Attribute attrType attrVals])"

datatype PartialAttribute = PartialAttribute (PType: string) (PVals: "string list")

datatype Operation = AddAttribute | DeleteAttribute | ReplaceAttribute

datatype Change = Change (Operation: Operation) (Modification: PartialAttribute)

datatype ModifyRequest = ModifyRequest (MDN: string) (Changes: "Change list")

definition NewModifyRequest :: "string \<Rightarrow> ModifyRequest" where
  "NewModifyRequest dn = ModifyRequest dn []"

definition appendChange :: "ModifyRequest \<Rightarrow> Operation \<Rightarrow> string \<Rightarrow> string list \<Rightarrow> ModifyRequest" where
  "appendChange req operation attrType attrVals =
     ModifyRequest (MDN req) (Changes req @ [Change operation (PartialAttribute attrType attrVals)])"

definition ModifyRequest_Add :: "ModifyRequest \<Rightarrow> string \<Rightarrow> string list \<Rightarrow> ModifyRequest" where
  "ModifyRequest_Add req attrType attrVals = appendChange req AddAttribute attrType attrVals"

definition ModifyRequest_Delete :: "ModifyRequest \<Rightarrow> string \<Rightarrow> string list \<Rightarrow> ModifyRequest" where
  "ModifyRequest_Delete req attrType attrVals = appendChange req DeleteAttribute attrType attrVals"

definition ModifyRequest_Replace :: "ModifyRequest \<Rightarrow> string \<Rightarrow> string list \<Rightarrow> ModifyRequest" where
  "ModifyRequest_Replace req attrType attrVals = appendChange req ReplaceAttribute attrType attrVals"

datatype EntryAttribute = EntryAttribute (Name: string) (Values: "string list")

datatype Entry = Entry (EDN: string) (EAttributes: "EntryAttribute list")

text \<open>
  \<open>GetAttributeValues\<close> returns the values of the first attribute of that exact name,
  and no value when there is none; \<open>GetAttributeValue\<close> returns the first of them, or
  the empty string.
\<close>

fun findAttributeValues :: "EntryAttribute list \<Rightarrow> string \<Rightarrow> string list" where
  "findAttributeValues [] attribute = []"
| "findAttributeValues (a # as) attribute =
     (if Name a = attribute then Values a else findAttributeValues as attribute)"

definition GetAttributeValues :: "Entry \<Rightarrow> string \<Rightarrow> string list" where
  "GetAttributeValues e attribute = findAttributeValues (EAttributes e) attribute"

definition GetAttributeValue :: "Entry \<Rightarrow> string \<Rightarrow> string" where
  "GetAttributeValue e attribute =
     (case GetAttributeValues e attribute of [] \<Rightarrow> [] | v # _ \<Rightarrow> v)"

datatype SearchRequest =
  SearchRequest (BaseDN: string) (Scope: nat) (DerefAliases: nat) (SizeLimit: nat)
    (TimeLimit: nat) (TypesOnly: bool) (Filter: string) (SAttributes: "string list")

definition ScopeBaseObject :: nat where
  "ScopeBaseObject = 0"

definition NeverDerefAliases :: nat where
  "NeverDerefAliases = 0"

text \<open>
  The directory connection. Each operation of a cycle is issued at most once, so the
  connection is given by what it answers to each request; the calls that reach it are
  recorded by the operations below as a list of \<open>ProtocolCall\<close>.
\<close>

datatype ProtocolCall =
    AddCall AddRequest
  | SearchCall SearchRequest
  | ModifyCall ModifyRequest
  | DelCall string

record Conn =
  conn_Add :: "AddRequest \<Rightarrow> go_error option"
  conn_Search :: "SearchRequest \<Rightarrow> go_error + Entry list"
  conn_Modify :: "ModifyRequest \<Rightarrow> go_error option"
  conn_Del :: "string \<Rightarrow> go_error option"

section \<open>The resource data of an \<open>ldap_group\<close>\<close>

text \<open>
  The fields of the schema. A \<open>schema.Set\<close> of strings is the list of its elements
  (what \<open>List()\<close> enumerates, without repetition); the \<open>attributes\<close> set holds
  single-entry maps, each a (name, value) pair, identified by name and value. Field
  \<open>key_k\<close> holds the value of the schema key \<open>k\<close>.
  \<open>gid_number\<close> is \<open>None\<close> when the key is not set; every other unset key holds the
  zero value of its type, as \<open>Get\<close> returns it. The elements of a set are told
  apart by their value: the hash codes under which \<open>schema.Set\<close> stores them are
  taken to differ for different elements.
\<close>

record GroupData =
  key_dn :: string
  key_description :: string
  key_gid_number :: "int option"
  key_member :: "string list"
  key_member_uid :: "string list"
  key_unique_member :: "string list"
  key_member_url :: "string list"
  key_attributes :: "(string \<times> string) list"
  key_object_classes :: "string list"

text \<open>
  \<open>prior\<close> is the state before the cycle (the old side of \<open>GetChange\<close>), \<open>current\<close>
  is what \<open>Get\<close> reads and \<open>Set\<close> writes.
\<close>

record ResourceData =
  Id :: string
  prior :: GroupData
  current :: GroupData

definition SetId :: "ResourceData \<Rightarrow> string \<Rightarrow> ResourceData" where
  "SetId d v = d\<lparr>Id := v\<rparr>"

definition Get_int :: "int option \<Rightarrow> int" where
  "Get_int v = (case v of None \<Rightarrow> 0 | Some i \<Rightarrow> i)"

text \<open>
  \<open>GetOk\<close> reports a key as present when it is set to a value other than the zero
  value of its type: \<open>0\<close>, the empty string, the empty set.
\<close>

definition GetOk_int :: "int option \<Rightarrow> bool" where
  "GetOk_int v = (case v of None \<Rightarrow> False | Some i \<Rightarrow> i \<noteq> 0)"

definition GetOk_string :: "string \<Rightarrow> bool" where
  "GetOk_string v = (v \<noteq> [])"

definition GetOk_set :: "'a list \<Rightarrow> bool" where
  "GetOk_set v = (v \<noteq> [])"

text \<open>
  The value of a set-valued key, by the name of the key. The provider passes no other
  key than these.
\<close>

definition getStringSet :: "GroupData \<Rightarrow> string \<Rightarrow> string list" where
  "getStringSet g key =
     (if key = ''member'' then key_member g
      else if key = ''member_uid'' then key_member_uid g
      else if key = ''unique_member'' then key_unique_member g
      else if key = ''member_url'' then key_member_url g
      else if key = ''object_classes'' then key_object_classes g
      else [])"

text \<open>\<open>(*schema.Set).Difference\<close>: the elements of the receiver that the other set lacks.\<close>

definition Difference :: "'a list \<Rightarrow> 'a list \<Rightarrow> 'a list" where
  "Difference s other = filter (\<lambda>x. x \<notin> set other) s"

text \<open>\<open>(*schema.Set).Add\<close>: an element already in the set is not added again.\<close>

definition Set_Add :: "'a list \<Rightarrow> 'a \<Rightarrow> 'a list" where
  "Set_Add s x = (if x \<in> set s then s else s @ [x])"

section \<open>Helpers of the group resource\<close>

definition deriveCNFromDN :: "string \<Rightarrow> go_error + string" where
  "deriveCNFromDN dn =
     (let parts = SplitN dn (CHR '','') 2
      in case parts of
           [] \<Rightarrow> Inl (Errorf ''invalid DN format'')
         | cnPart # _ \<Rightarrow>
             if HasPrefix (ToUpper cnPart) ''CN='' then Inr (drop 3 cnPart)
             else Inl (Errorf ''CN not found in DN''))"

text \<open>
  The message \<^verbatim>\<open>missing required attribute 'gid_number' for objectClass 'posixGroup'\<close>;
  \<open>CHR 0x27\<close> is the single quote.
\<close>

definition missing_gid_number :: go_error where
  "missing_gid_number =
     Errorf (''missing required attribute '' @ [CHR 0x27] @ ''gid_number'' @ [CHR 0x27] @
             '' for objectClass '' @ [CHR 0x27] @ ''posixGroup'' @ [CHR 0x27])"

fun validateObjectClasses :: "string list \<Rightarrow> ResourceData \<Rightarrow> go_error list" where
  "validateObjectClasses [] d = []"
| "validateObjectClasses (objectClass # rest) d =
     (if objectClass = ''posixGroup'' \<and> \<not> GetOk_int (key_gid_number (current d))
      then missing_gid_number # validateObjectClasses rest d
      else validateObjectClasses rest d)"

text \<open>
  \<open>updateLDAPAttributeSet\<close>: the two loops over the differences, each appending one
  change per element, and the function itself. The request is changed in place by the
  source; here it is returned with the error (which is always \<open>nil\<close>).
  \<open>HasChange\<close> on a set key compares the old and the new set.
\<close>

fun addEach :: "ModifyRequest \<Rightarrow> string \<Rightarrow> string list \<Rightarrow> ModifyRequest" where
  "addEach request ldapAttributeName [] = request"
| "addEach request ldapAttributeName (add # rest) =
     addEach (ModifyRequest_Add request ldapAttributeName [add]) ldapAttributeName rest"

fun removeEach :: "ModifyRequest \<Rightarrow> string \<Rightarrow> string list \<Rightarrow> ModifyRequest" where
  "removeEach request ldapAttributeName [] = request"
| "removeEach request ldapAttributeName (remove # rest) =
     removeEach (ModifyRequest_Delete request ldapAttributeName [remove]) ldapAttributeName rest"

definition HasChange_set :: "'a list \<Rightarrow> 'a list \<Rightarrow> bool" where
  "HasChange_set oldSet newSet = (set oldSet \<noteq> set newSet)"

definition updateLDAPAttributeSet ::
  "ModifyRequest \<Rightarrow> ResourceData \<Rightarrow> string \<Rightarrow> string \<Rightarrow> ModifyRequest \<times> go_error option" where
  "updateLDAPAttributeSet request d tfAttributeName ldapAttributeName =
     (let oldSet = getStringSet (prior d) tfAttributeName;
          newSet = getStringSet (current d) tfAttributeName
      in if HasChange_set oldSet newSet
         then (let request = addEach request ldapAttributeName (Difference newSet oldSet);
                   request = removeEach request ldapAttributeName (Difference oldSet newSet)
               in (request, None))
         else (request, None))"

section \<open>Read\<close>

definition attributesToRead :: "string list" where
  "attributesToRead =
     [''cn'', ''description'', ''gidNumber'', ''memberUid'', ''uniqueMember'', ''memberURL'', ''*'']"

definition NewSearchRequest_group :: "string \<Rightarrow> SearchRequest" where
  "NewSearchRequest_group dnv =
     SearchRequest dnv ScopeBaseObject NeverDerefAliases 0 0 False ''(objectclass=*)'' attributesToRead"

text \<open>The test that skips the attributes handled on their own, or by the system.\<close>

definition alreadyHandled :: "string \<Rightarrow> bool" where
  "alreadyHandled n =
     (n = ''objectClass'' \<or> n = ''cn'' \<or> n = ''description'' \<or>
      n = ''gidNumber'' \<or> n = ''memberUid'' \<or> n = ''uniqueMember'' \<or>
      n = ''memberURL'' \<or> n = ''member'')"

text \<open>The test for the RDN: one value, and \<open>name=value\<close> starts the DN.\<close>

definition isRDN :: "string \<Rightarrow> EntryAttribute \<Rightarrow> bool" where
  "isRDN dnv attribute =
     (case Values attribute of
        [v] \<Rightarrow> HasPrefix dnv (Name attribute @ ''='' @ v)
      | _ \<Rightarrow> False)"

fun addValues :: "(string \<times> string) list \<Rightarrow> string \<Rightarrow> string list \<Rightarrow> (string \<times> string) list" where
  "addValues s n [] = s"
| "addValues s n (v # vs) = addValues (Set_Add s (n, v)) n vs"

text \<open>The loop over the attributes of the entry that fills the generic set.\<close>

fun readAttributes ::
  "string \<Rightarrow> EntryAttribute list \<Rightarrow> (string \<times> string) list \<Rightarrow> (string \<times> string) list" where
  "readAttributes dnv [] s = s"
| "readAttributes dnv (attribute # rest) s =
     (if alreadyHandled (Name attribute) then readAttributes dnv rest s
      else if isRDN dnv attribute then readAttributes dnv rest s
      else readAttributes dnv rest (addValues s (Name attribute) (Values attribute)))"

text \<open>
  The part of the read that follows \<open>entry := sr.Entries[0]\<close>. \<open>Set\<close> on a set key
  stores the values without repetition. \<open>Set\<close> accepts every value of the type of
  its key, so the error return after \<open>d.Set("attributes", set)\<close> is not taken.
\<close>

definition readEntry :: "string \<Rightarrow> Entry \<Rightarrow> ResourceData \<Rightarrow> ResourceData \<times> go_error option" where
  "readEntry dnv entry d =
     (let g = current d;
          g = g\<lparr>key_description := GetAttributeValue entry ''description''\<rparr>;
          gidNumberStr = GetAttributeValue entry ''gidNumber'';
          parsed = (if gidNumberStr \<noteq> []
                    then (case Atoi gidNumberStr of
                            Inl err \<Rightarrow> Inl err
                          | Inr gidNumber \<Rightarrow> Inr (g\<lparr>key_gid_number := Some gidNumber\<rparr>))
                    else Inr g)
      in case parsed of
           Inl err \<Rightarrow> (d\<lparr>current := g\<rparr>, Some err)
         | Inr g \<Rightarrow>
             (let objectClasses = GetAttributeValues entry ''objectClass'';
                  g = (if length objectClasses > 0
                       then g\<lparr>key_object_classes := remdups objectClasses\<rparr> else g);
                  memberUids = GetAttributeValues entry ''memberUid'';
                  g = (if length memberUids > 0
                       then g\<lparr>key_member_uid := remdups memberUids\<rparr> else g);
                  uniqueMembers = GetAttributeValues entry ''uniqueMember'';
                  g = (if length uniqueMembers > 0
                       then g\<lparr>key_unique_member := remdups uniqueMembers\<rparr> else g);
                  memberURLs = GetAttributeValues entry ''memberURL'';
                  g = (if length memberURLs > 0
                       then g\<lparr>key_member_url := remdups memberURLs\<rparr> else g);
                  members = GetAttributeValues entry ''member'';
                  g = (if length members > 0
                       then g\<lparr>key_member := remdups memberURLs\<rparr> else g);
                  s = readAttributes dnv (EAttributes entry) [];
                  g = g\<lparr>key_attributes := s\<rparr>
              in (d\<lparr>current := g\<rparr>, None)))"

text \<open>
  Every operation returns the protocol calls it issued, the resource data as it leaves
  them, and its error (\<open>None\<close> for \<open>nil\<close>).
\<close>

definition resourceLDAPGroupRead ::
  "Conn \<Rightarrow> ResourceData \<Rightarrow> ProtocolCall list \<times> ResourceData \<times> go_error option" where
  "resourceLDAPGroupRead client d =
     (let dnv = key_dn (current d);
          request = NewSearchRequest_group dnv
      in case conn_Search client request of
           Inl err \<Rightarrow>
             (case err of
                LdapError code msg \<Rightarrow>
                  if code = LDAPResultNoSuchObject
                  then ([SearchCall request], SetId d [], None)
                  else ([SearchCall request], d, Some err)
              | _ \<Rightarrow> ([SearchCall request], d, Some err))
         | Inr entries \<Rightarrow>
             (case entries of
                [] \<Rightarrow> ([SearchCall request], SetId d [], None)
              | entry # _ \<Rightarrow>
                  (let (d, err) = readEntry dnv entry d
                   in ([SearchCall request], d, err))))"

section \<open>Create\<close>

text \<open>
  The generic attributes are collected in a map from name to values, each value
  appended to those of its name. Go enumerates a map in no fixed order; the model
  enumerates the names in the order of their first occurrence.
\<close>

fun appendValue :: "(string \<times> string list) list \<Rightarrow> string \<Rightarrow> string \<Rightarrow> (string \<times> string list) list" where
  "appendValue [] n v = [(n, [v])]"
| "appendValue ((k, vs) # m) n v =
     (if k = n then (k, vs @ [v]) # m else (k, vs) # appendValue m n v)"

fun collectAttributes ::
  "(string \<times> string) list \<Rightarrow> (string \<times> string list) list \<Rightarrow> (string \<times> string list) list" where
  "collectAttributes [] m = m"
| "collectAttributes ((n, v) # rest) m = collectAttributes rest (appendValue m n v)"

fun addCollected :: "AddRequest \<Rightarrow> (string \<times> string list) list \<Rightarrow> AddRequest" where
  "addCollected request [] = request"
| "addCollected request ((n, vs) # m) = addCollected (AddRequest_Attribute request n vs) m"

text \<open>The request as it stands after \<open>request.Attribute("cn", ...)\<close>, up to the call of \<open>Add\<close>.\<close>

definition createOptionalAttributes :: "AddRequest \<Rightarrow> ResourceData \<Rightarrow> AddRequest" where
  "createOptionalAttributes request d =
     (let g = current d;
          request = (if GetOk_string (key_description g)
                     then AddRequest_Attribute request ''description'' [key_description g]
                     else request);
          request = (if GetOk_int (key_gid_number g)
                     then AddRequest_Attribute request ''gidNumber'' [Itoa (Get_int (key_gid_number g))]
                     else request);
          request = (if GetOk_set (key_member_uid g) \<and> length (key_member_uid g) > 0
                     then AddRequest_Attribute request ''memberUid'' (key_member_uid g)
                     else request);
          request = (if GetOk_set (key_unique_member g) \<and> length (key_unique_member g) > 0
                     then AddRequest_Attribute request ''uniqueMember'' (key_unique_member g)
                     else request);
          request = (if GetOk_set (key_member_url g) \<and> length (key_member_url g) > 0
                     then AddRequest_Attribute request ''memberURL'' (key_member_url g)
                     else request);
          request = (if GetOk_set (key_member g) \<and> length (key_member g) > 0
                     then AddRequest_Attribute request ''member'' (key_member g)
                     else request);
          request = (if GetOk_set (key_attributes g)
                     then (if length (key_attributes g) > 0
                           then addCollected request (collectAttributes (key_attributes g) [])
                           else request)
                     else request)
      in request)"

text \<open>The object classes of the create: those of the resource data, or the default.\<close>

definition createObjectClasses :: "ResourceData \<Rightarrow> string list" where
  "createObjectClasses d =
     (if GetOk_set (key_object_classes (current d))
      then key_object_classes (current d)
      else [''posixGroup''])"

definition resourceLDAPGroupCreate ::
  "Conn \<Rightarrow> ResourceData \<Rightarrow> ProtocolCall list \<times> ResourceData \<times> go_error option" where
  "resourceLDAPGroupCreate client d =
     (let dnv = key_dn (current d);
          request = NewAddRequest dnv;
          objectClasses = createObjectClasses d;
          errors = validateObjectClasses objectClasses d
      in if length errors > 0 then ([], d, Some (ValidationFailed dnv errors))
         else
           (let request = AddRequest_Attribute request ''objectClass'' objectClasses
            in case deriveCNFromDN dnv of
                 Inl err \<Rightarrow> ([], d, Some err)
               | Inr cn \<Rightarrow>
                   (let request = AddRequest_Attribute request ''cn'' [cn];
                        request = createOptionalAttributes request d
                    in case conn_Add client request of
                         Some err \<Rightarrow> ([AddCall request], d, Some err)
                       | None \<Rightarrow>
                           (let d = SetId d dnv;
                                (calls, d, err) = resourceLDAPGroupRead client d
                            in (AddCall request # calls, d, err)))))"

section \<open>Update\<close>

text \<open>
  Modelled from the spec: the attribute modification of one bag entry, which the
  sources at hand do not define. The specification renders an added or removed entry
  with its name and its one value.
\<close>

definition entryAttribute :: "string \<times> string \<Rightarrow> PartialAttribute" where
  "entryAttribute e = PartialAttribute (fst e) [snd e]"

text \<open>
  Modelled from the spec: \<open>computeDeltas\<close> is called by \<open>resourceLDAPGroupUpdate\<close> and
  returns three lists of attribute modifications (added, changed, removed), but the
  function itself is not part of the sources at hand. The specification describes it:
  both bags are sets of single (name, value) entries, added is desired minus previous,
  removed is previous minus desired, and there is no changed category at the entry
  level.
\<close>

definition computeDeltas ::
  "(string \<times> string) list \<Rightarrow> (string \<times> string) list \<Rightarrow>
     PartialAttribute list \<times> PartialAttribute list \<times> PartialAttribute list" where
  "computeDeltas os ns =
     (map entryAttribute (Difference ns os), [], map entryAttribute (Difference os ns))"

definition appendChanges :: "ModifyRequest \<Rightarrow> Operation \<Rightarrow> PartialAttribute list \<Rightarrow> ModifyRequest" where
  "appendChanges request operation attrs =
     ModifyRequest (MDN request) (Changes request @ map (Change operation) attrs)"

text \<open>The changes of the generic attributes: the block under \<open>d.HasChange("attributes")\<close>.\<close>

definition updateAttributes :: "ModifyRequest \<Rightarrow> ResourceData \<Rightarrow> ModifyRequest" where
  "updateAttributes request d =
     (if HasChange_set (key_attributes (prior d)) (key_attributes (current d))
      then (let (added, changed, removed) =
                  computeDeltas (key_attributes (prior d)) (key_attributes (current d));
                request = (if length added > 0
                           then appendChanges request AddAttribute added else request);
                request = (if length changed > 0
                           then appendChanges request ReplaceAttribute changed else request);
                request = (if length removed > 0
                           then appendChanges request DeleteAttribute removed else request)
            in request)
      else request)"

text \<open>The request that the update sends, or the error that stops it before.\<close>

definition buildModifyRequest :: "ResourceData \<Rightarrow> go_error + ModifyRequest" where
  "buildModifyRequest d =
     (let dnv = key_dn (current d);
          request = NewModifyRequest dnv;
          request = (if key_description (prior d) \<noteq> key_description (current d)
                     then ModifyRequest_Replace request ''description'' [key_description (current d)]
                     else request);
          request = (if Get_int (key_gid_number (prior d)) \<noteq> Get_int (key_gid_number (current d))
                     then ModifyRequest_Replace request ''gidNumber''
                            [Itoa (Get_int (key_gid_number (current d)))]
                     else request)
      in case updateLDAPAttributeSet request d ''member'' ''member'' of
           (request, Some err) \<Rightarrow> Inl err
         | (request, None) \<Rightarrow>
        (case updateLDAPAttributeSet request d ''member_uid'' ''memberUid'' of
           (request, Some err) \<Rightarrow> Inl err
         | (request, None) \<Rightarrow>
        (case updateLDAPAttributeSet request d ''unique_member'' ''uniqueMember'' of
           (request, Some err) \<Rightarrow> Inl err
         | (request, None) \<Rightarrow>
        (case updateLDAPAttributeSet request d ''member_url'' ''memberURL'' of
           (request, Some err) \<Rightarrow> Inl err
         | (request, None) \<Rightarrow> Inr (updateAttributes request d)))))"

definition resourceLDAPGroupUpdate ::
  "Conn \<Rightarrow> ResourceData \<Rightarrow> ProtocolCall list \<times> ResourceData \<times> go_error option" where
  "resourceLDAPGroupUpdate client d =
     (case buildModifyRequest d of
        Inl err \<Rightarrow> ([], d, Some err)
      | Inr request \<Rightarrow>
          (case conn_Modify client request of
             Some err \<Rightarrow> ([ModifyCall request], d, Some err)
           | None \<Rightarrow>
               (let (calls, d, err) = resourceLDAPGroupRead client d
                in (ModifyCall request # calls, d, err))))"

section \<open>Delete and import\<close>

definition resourceLDAPGroupDelete ::
  "Conn \<Rightarrow> ResourceData \<Rightarrow> ProtocolCall list \<times> ResourceData \<times> go_error option" where
  "resourceLDAPGroupDelete client d =
     (let dnv = key_dn (current d)
      in case conn_Del client dnv of
           Some err \<Rightarrow> ([DelCall dnv], d, Some err)
         | None \<Rightarrow> ([DelCall dnv], SetId d [], None))"

text \<open>The import takes the identity as the DN and reads the group.\<close>

definition resourceLDAPGroupImport ::
  "Conn \<Rightarrow> ResourceData \<Rightarrow> ProtocolCall list \<times> ResourceData \<times> go_error option" where
  "resourceLDAPGroupImport client d =
     resourceLDAPGroupRead client (d\<lparr>current := (current d)\<lparr>key_dn := Id d\<rparr>\<rparr>)"

section \<open>A directory entry that receives the changes\<close>

text \<open>
  The values of each attribute of one entry, and what a Modify request does to them:
  Add appends values and fails when one is already there, Delete removes the listed
  values and fails when one is missing (with no value listed, it removes the
  attribute), Replace sets the values. A request stops at its first failing change.
\<close>

type_synonym store = "string \<Rightarrow> string list"

fun applyChange :: "Change \<Rightarrow> store \<Rightarrow> go_error + store" where
  "applyChange (Change AddAttribute (PartialAttribute n vs)) st =
     (if (\<exists>v \<in> set vs. v \<in> set (st n)) \<or> \<not> distinct vs
      then Inl (LdapError LDAPResultAttributeOrValueExists [])
      else Inr (st(n := st n @ vs)))"
| "applyChange (Change DeleteAttribute (PartialAttribute n vs)) st =
     (if vs = [] then (if st n = [] then Inl (LdapError LDAPResultNoSuchAttribute [])
                       else Inr (st(n := [])))
      else if (\<exists>v \<in> set vs. v \<notin> set (st n))
      then Inl (LdapError LDAPResultNoSuchAttribute [])
      else Inr (st(n := filter (\<lambda>v. v \<notin> set vs) (st n))))"
| "applyChange (Change ReplaceAttribute (PartialAttribute n vs)) st = Inr (st(n := vs))"

fun applyChanges :: "Change list \<Rightarrow> store \<Rightarrow> go_error + store" where
  "applyChanges [] st = Inr st"
| "applyChanges (c # cs) st =
     (case applyChange c st of Inl err \<Rightarrow> Inl err | Inr st' \<Rightarrow> applyChanges cs st')"

section \<open>Notions of the specification\<close>

text \<open>
  The first comma-separated component of a DN, and what it is for a component to be a
  \<open>cn=\<close> pair (attribute names are not case-sensitive).
\<close>

definition firstComponent :: "string \<Rightarrow> string" where
  "firstComponent s = takeWhile (\<lambda>c. c \<noteq> CHR '','') s"

definition isCNPair :: "string \<Rightarrow> bool" where
  "isCNPair s =
     (case s of
        c # n # e # _ \<Rightarrow>
          (c = CHR ''c'' \<or> c = CHR ''C'') \<and> (n = CHR ''n'' \<or> n = CHR ''N'') \<and> e = CHR ''=''
      | _ \<Rightarrow> False)"

text \<open>
  The set-valued well-known attributes, each by its schema key and its LDAP name, and
  the changes of a set delta: one Add for each desired value that was not there, then
  one Delete for each previous value that is not desired.
\<close>

definition wellKnownSets :: "(string \<times> string) list" where
  "wellKnownSets =
     [(''member'', ''member''), (''member_uid'', ''memberUid''),
      (''unique_member'', ''uniqueMember''), (''member_url'', ''memberURL'')]"

definition setDeltaChanges :: "string \<Rightarrow> string list \<Rightarrow> string list \<Rightarrow> Change list" where
  "setDeltaChanges n previous desired =
     map (\<lambda>x. Change AddAttribute (PartialAttribute n [x])) (Difference desired previous) @
     map (\<lambda>x. Change DeleteAttribute (PartialAttribute n [x])) (Difference previous desired)"

section \<open>Sample inputs\<close>

text \<open>The group of the repository's example configuration, and variations of it.\<close>

definition example_group :: GroupData where
  "example_group =
     \<lparr>key_dn = ''cn=mygroup,ou=users,dc=example,dc=com'',
      key_description = ''My Group'',
      key_gid_number = Some 1000,
      key_member = [],
      key_member_uid = [],
      key_unique_member = [],
      key_member_url = [],
      key_attributes = [],
      key_object_classes = []\<rparr>"

definition example_data :: ResourceData where
  "example_data = \<lparr>Id = [], prior = example_group, current = example_group\<rparr>"

definition no_gid_data :: ResourceData where
  "no_gid_data = example_data\<lparr>current := example_group\<lparr>key_gid_number := None\<rparr>\<rparr>"

definition zero_gid_data :: ResourceData where
  "zero_gid_data = example_data\<lparr>current := example_group\<lparr>key_gid_number := Some 0\<rparr>\<rparr>"

definition malformed_dn_data :: ResourceData where
  "malformed_dn_data =
     example_data\<lparr>current := example_group\<lparr>key_dn := ''ou=users,dc=example,dc=com''\<rparr>\<rparr>"

text \<open>
  Connections: one that accepts every write and finds no entry, one whose search
  answers "no such object", one whose search fails for another reason.
\<close>

definition empty_conn :: Conn where
  "empty_conn =
     \<lparr>conn_Add = (\<lambda>r. None), conn_Search = (\<lambda>r. Inr []),
      conn_Modify = (\<lambda>r. None), conn_Del = (\<lambda>r. None)\<rparr>"

definition absent_conn :: Conn where
  "absent_conn =
     empty_conn\<lparr>conn_Search := (\<lambda>r. Inl (LdapError LDAPResultNoSuchObject ''No Such Object''))\<rparr>"

definition failing_conn :: Conn where
  "failing_conn = empty_conn\<lparr>conn_Search := (\<lambda>r. Inl (OtherError ''connection reset''))\<rparr>"

text \<open>
  An entry as a search returns it, with a \<open>member\<close> value and no \<open>memberURL\<close>, and
  a connection that finds it.
\<close>

definition example_entry :: Entry where
  "example_entry =
     Entry ''cn=mygroup,ou=users,dc=example,dc=com''
       [EntryAttribute ''objectClass'' [''top'', ''posixGroup'', ''groupOfNames''],
        EntryAttribute ''cn'' [''mygroup''],
        EntryAttribute ''description'' [''My Group''],
        EntryAttribute ''gidNumber'' [''1000''],
        EntryAttribute ''member'' [''uid=a123456,ou=users,dc=example,dc=com''],
        EntryAttribute ''businessCategory'' [''My Business Category''],
        EntryAttribute ''mail'' [''a@x.com'', ''b@x.com'']]"

definition example_conn :: Conn where
  "example_conn = empty_conn\<lparr>conn_Search := (\<lambda>r. Inr [example_entry])\<rparr>"

text \<open>The entry of a person, whose RDN is its \<open>uid\<close>.\<close>

definition person_dn :: string where
  "person_dn = ''uid=a123456,ou=users,dc=example,dc=com''"

definition person_attributes :: "EntryAttribute list" where
  "person_attributes =
     [EntryAttribute ''objectClass'' [''inetOrgPerson'', ''posixAccount''],
      EntryAttribute ''uid'' [''a123456''],
      EntryAttribute ''sn'' [''Doe''],
      EntryAttribute ''mail'' [''john.doe@example.com'', ''jdoe@example.com'']]"

text \<open>
  A group whose \<open>member_uid\<close> goes from alice and bob to bob and carol, and a
  directory entry that holds alice and bob.
\<close>

definition member_uid_data :: ResourceData where
  "member_uid_data =
     \<lparr>Id = ''cn=mygroup,ou=users,dc=example,dc=com'',
      prior = example_group\<lparr>key_member_uid := [''alice'', ''bob'']\<rparr>,
      current = example_group\<lparr>key_member_uid := [''bob'', ''carol'']\<rparr>\<rparr>"

definition member_uid_store :: store where
  "member_uid_store = (\<lambda>n. [])(''memberUid'' := [''alice'', ''bob''])"

text \<open>A group that gains a second \<open>mail\<close> value among its generic attributes.\<close>

definition mail_data :: ResourceData where
  "mail_data =
     \<lparr>Id = ''cn=mygroup,ou=users,dc=example,dc=com'',
      prior = example_group\<lparr>key_attributes := [(''mail'', ''a@x.com'')]\<rparr>,
      current = example_group\<lparr>key_attributes := [(''mail'', ''a@x.com''), (''mail'', ''b@x.com'')]\<rparr>\<rparr>"

section \<open>Properties of the helpers\<close>

lemma of_char_lt_256: "(of_char c :: nat) < 256"
  by (metis of_char_mod_256 mod_less_divisor zero_less_numeral)

lemma char_eq_code: "c = d \<longleftrightarrow> (of_char c :: nat) = of_char d"
  by simp

lemma toUpper_char_C: "toUpper_char c = CHR ''C'' \<longleftrightarrow> c = CHR ''c'' \<or> c = CHR ''C''"
proof -
  have c: "(of_char c :: nat) < 256" by (rule of_char_lt_256)
  show ?thesis
    unfolding toUpper_char_def Let_def char_eq_code [of _ "CHR ''C''"] char_eq_code [of _ "CHR ''c''"]
    using c by (auto simp: take_bit_eq_mod)
qed

lemma toUpper_char_N: "toUpper_char c = CHR ''N'' \<longleftrightarrow> c = CHR ''n'' \<or> c = CHR ''N''"
proof -
  have c: "(of_char c :: nat) < 256" by (rule of_char_lt_256)
  show ?thesis
    unfolding toUpper_char_def Let_def char_eq_code [of _ "CHR ''N''"] char_eq_code [of _ "CHR ''n''"]
    using c by (auto simp: take_bit_eq_mod)
qed

lemma toUpper_char_eq: "toUpper_char c = CHR ''='' \<longleftrightarrow> c = CHR ''=''"
proof -
  have c: "(of_char c :: nat) < 256" by (rule of_char_lt_256)
  show ?thesis
    unfolding toUpper_char_def Let_def char_eq_code [of _ "CHR ''=''"]
    using c by (auto simp: take_bit_eq_mod)
qed

lemma SplitN_1: "SplitN s sep (Suc 0) = [s]"
  by (cases s) simp_all

lemma SplitN_2_Nil: "SplitN [] sep 2 = [[]]"
  by (simp add: numeral_2_eq_2)

lemma SplitN_2_Cons:
  "SplitN (c # cs) sep 2 =
     (if c = sep then [[], cs]
      else (case SplitN cs sep 2 of [] \<Rightarrow> [[c]] | p # ps \<Rightarrow> (c # p) # ps))"
  by (simp add: numeral_2_eq_2 SplitN_1)

lemma SplitN_2_hd:
  "\<exists>ps. SplitN s sep 2 = takeWhile (\<lambda>c. c \<noteq> sep) s # ps"
  by (induction s) (auto simp: SplitN_2_Nil SplitN_2_Cons)

lemma HasPrefix_ToUpper_CN: "HasPrefix (ToUpper s) ''CN='' \<longleftrightarrow> isCNPair s"
proof (cases s)
  case Nil
  then show ?thesis by (simp add: HasPrefix_def ToUpper_def isCNPair_def)
next
  case s1: (Cons c s')
  show ?thesis
  proof (cases s')
    case Nil
    with s1 show ?thesis by (simp add: HasPrefix_def ToUpper_def isCNPair_def)
  next
    case s2: (Cons n s'')
    show ?thesis
    proof (cases s'')
      case Nil
      with s1 s2 show ?thesis by (simp add: HasPrefix_def ToUpper_def isCNPair_def)
    next
      case (Cons e rest)
      with s1 s2 show ?thesis
        using toUpper_char_C [of c] toUpper_char_N [of n] toUpper_char_eq [of e]
        by (auto simp: HasPrefix_def ToUpper_def isCNPair_def)
    qed
  qed
qed

lemma deriveCNFromDN_eq:
  "deriveCNFromDN s =
     (if isCNPair (firstComponent s) then Inr (drop 3 (firstComponent s))
      else Inl (Errorf ''CN not found in DN''))"
proof -
  obtain ps where "SplitN s (CHR '','') 2 = firstComponent s # ps"
    using SplitN_2_hd [of s "CHR '',''"] by (auto simp: firstComponent_def)
  then show ?thesis
    by (simp add: deriveCNFromDN_def HasPrefix_ToUpper_CN)
qed

lemma validateObjectClasses_eq:
  "validateObjectClasses objectClasses d =
     (if GetOk_int (key_gid_number (current d)) then []
      else replicate (count_list objectClasses ''posixGroup'') missing_gid_number)"
  by (induction objectClasses) auto

lemma read_calls:
  "fst (resourceLDAPGroupRead client d) = [SearchCall (NewSearchRequest_group (key_dn (current d)))]"
  by (simp add: resourceLDAPGroupRead_def Let_def
      split: sum.splits go_error.splits list.splits prod.splits)

lemma Attributes_addCollected:
  "Attributes (addCollected request m) = Attributes request @ map (\<lambda>(n, vs). Attribute n vs) m"
  by (induction request m rule: addCollected.induct) (simp_all add: AddRequest_Attribute_def)

lemma createOptionalAttributes_prefix:
  "\<exists>extra. Attributes (createOptionalAttributes request d) = Attributes request @ extra"
  by (simp add: createOptionalAttributes_def Let_def AddRequest_Attribute_def Attributes_addCollected)

lemma create_calls:
  "fst (resourceLDAPGroupCreate client d) =
     (if validateObjectClasses (createObjectClasses d) d \<noteq> [] then []
      else if \<not> isCNPair (firstComponent (key_dn (current d))) then []
      else (let request = createOptionalAttributes
                   (AddRequest (key_dn (current d))
                      [Attribute ''objectClass'' (createObjectClasses d),
                       Attribute ''cn'' [drop 3 (firstComponent (key_dn (current d)))]]) d
            in if conn_Add client request = None
               then [AddCall request,
                     SearchCall (NewSearchRequest_group (key_dn (current d)))]
               else [AddCall request]))"
  using read_calls [of client "SetId d (key_dn (current d))"]
  by (auto simp: resourceLDAPGroupCreate_def Let_def deriveCNFromDN_eq NewAddRequest_def
      AddRequest_Attribute_def SetId_def split: option.splits prod.splits)

section \<open>Validation of the required attributes\<close>

text \<open>
  C6, as the code has it. \<open>validateObjectClasses\<close> does not stop at the first
  violation: it returns one error for every \<open>posixGroup\<close> of the object-class list
  when \<open>gid_number\<close> is not present, and no error when it is. Present is what
  \<open>GetOk\<close> reports: set, and not zero. So an object-class list without repetition
  that contains \<open>posixGroup\<close> yields exactly one error, the one that names
  \<open>gid_number\<close> and \<open>posixGroup\<close>, when \<open>gid_number\<close> is absent or \<open>0\<close>, and no
  error when \<open>gid_number\<close> is set to a value other than \<open>0\<close>.
\<close>

theorem validateObjectClasses_errors:
  "validateObjectClasses objectClasses d =
     (if GetOk_int (key_gid_number (current d)) then []
      else replicate (count_list objectClasses ''posixGroup'') missing_gid_number) \<and>
   (GetOk_int (key_gid_number (current d)) \<longleftrightarrow>
      (\<exists>g. key_gid_number (current d) = Some g \<and> g \<noteq> 0)) \<and>
   (distinct objectClasses \<and> ''posixGroup'' \<in> set objectClasses \<and>
      \<not> GetOk_int (key_gid_number (current d)) \<longrightarrow>
      validateObjectClasses objectClasses d = [missing_gid_number])"
proof -
  have "count_list objectClasses ''posixGroup'' = 1"
    if "distinct objectClasses" "''posixGroup'' \<in> set objectClasses"
    using that by (induction objectClasses) auto
  then show ?thesis
    by (auto simp: validateObjectClasses_eq GetOk_int_def split: option.splits)
qed

theorem validateObjectClasses_errors_witness:
  "validateObjectClasses [''top'', ''posixGroup''] no_gid_data = [missing_gid_number] \<and>
   validateObjectClasses [''top'', ''posixGroup''] example_data = []"
  using validateObjectClasses_errors [of "[''top'', ''posixGroup'']" no_gid_data]
    validateObjectClasses_errors [of "[''top'', ''posixGroup'']" example_data]
  by (simp add: GetOk_int_def no_gid_data_def example_data_def example_group_def)

text \<open>
  The claim as it is written fails where \<open>gid_number\<close> is supplied as \<open>0\<close>: the
  validation still reports it missing.
\<close>

theorem validateObjectClasses_zero_gid:
  "key_gid_number (current zero_gid_data) = Some 0 \<and>
   validateObjectClasses [''posixGroup''] zero_gid_data = [missing_gid_number]"
  by (simp add: GetOk_int_def zero_gid_data_def)

section \<open>Errors of the create before any protocol call\<close>

text \<open>
  C7. When the validation of the create fails, or the CN cannot be derived from the DN,
  the create returns an error, no request has reached the connection, and the resource
  data is as it was.
\<close>

theorem create_no_call_on_error:
  assumes "validateObjectClasses (createObjectClasses d) d \<noteq> [] \<or>
           (\<exists>err. deriveCNFromDN (key_dn (current d)) = Inl err)"
  shows "\<exists>err. resourceLDAPGroupCreate client d = ([], d, Some err)"
  using assms
  by (auto simp: resourceLDAPGroupCreate_def Let_def)

theorem create_no_call_on_error_witness:
  "deriveCNFromDN (key_dn (current malformed_dn_data)) = Inl (Errorf ''CN not found in DN'') \<and>
   resourceLDAPGroupCreate empty_conn malformed_dn_data =
     ([], malformed_dn_data, Some (Errorf ''CN not found in DN'')) \<and>
   validateObjectClasses (createObjectClasses no_gid_data) no_gid_data = [missing_gid_number] \<and>
   resourceLDAPGroupCreate empty_conn no_gid_data =
     ([], no_gid_data,
      Some (ValidationFailed ''cn=mygroup,ou=users,dc=example,dc=com'' [missing_gid_number]))"
proof -
  have a: "deriveCNFromDN (key_dn (current malformed_dn_data)) = Inl (Errorf ''CN not found in DN'')"
    by (simp add: deriveCNFromDN_eq firstComponent_def isCNPair_def malformed_dn_data_def)
  have b: "validateObjectClasses (createObjectClasses no_gid_data) no_gid_data = [missing_gid_number]"
    by (simp add: createObjectClasses_def GetOk_set_def GetOk_int_def no_gid_data_def
        example_group_def)
  from a have "\<exists>err. resourceLDAPGroupCreate empty_conn malformed_dn_data =
      ([], malformed_dn_data, Some err)"
    by (intro create_no_call_on_error) blast
  moreover have "validateObjectClasses (createObjectClasses malformed_dn_data) malformed_dn_data = []"
    by (simp add: createObjectClasses_def GetOk_set_def GetOk_int_def malformed_dn_data_def
        example_group_def)
  ultimately have c: "resourceLDAPGroupCreate empty_conn malformed_dn_data =
     ([], malformed_dn_data, Some (Errorf ''CN not found in DN''))"
    using a by (auto simp: resourceLDAPGroupCreate_def Let_def)
  from b have "\<exists>err. resourceLDAPGroupCreate empty_conn no_gid_data = ([], no_gid_data, Some err)"
    by (intro create_no_call_on_error) simp
  then have d: "resourceLDAPGroupCreate empty_conn no_gid_data =
     ([], no_gid_data,
      Some (ValidationFailed ''cn=mygroup,ou=users,dc=example,dc=com'' [missing_gid_number]))"
    using b by (auto simp: resourceLDAPGroupCreate_def Let_def no_gid_data_def example_group_def)
  from a b c d show ?thesis by simp
qed

section \<open>A read that finds no entry\<close>

text \<open>
  C9. When the search of a read fails with the result "no such object", or returns no
  entry, the read clears the identity of the resource and returns no error. Every
  other failure of the search is returned as it is, and the resource data is kept.
\<close>

theorem read_absent:
  "(\<forall>msg. conn_Search client (NewSearchRequest_group (key_dn (current d))) =
            Inl (LdapError LDAPResultNoSuchObject msg) \<longrightarrow>
      resourceLDAPGroupRead client d =
        ([SearchCall (NewSearchRequest_group (key_dn (current d)))], d\<lparr>Id := []\<rparr>, None)) \<and>
   (conn_Search client (NewSearchRequest_group (key_dn (current d))) = Inr [] \<longrightarrow>
      resourceLDAPGroupRead client d =
        ([SearchCall (NewSearchRequest_group (key_dn (current d)))], d\<lparr>Id := []\<rparr>, None)) \<and>
   (\<forall>err. conn_Search client (NewSearchRequest_group (key_dn (current d))) = Inl err \<and>
          (\<forall>msg. err \<noteq> LdapError LDAPResultNoSuchObject msg) \<longrightarrow>
      resourceLDAPGroupRead client d =
        ([SearchCall (NewSearchRequest_group (key_dn (current d)))], d, Some err))"
  by (auto simp: resourceLDAPGroupRead_def Let_def SetId_def split: go_error.splits)

theorem read_absent_witness:
  "resourceLDAPGroupRead absent_conn
     (example_data\<lparr>Id := ''cn=mygroup,ou=users,dc=example,dc=com''\<rparr>) =
     ([SearchCall (NewSearchRequest_group ''cn=mygroup,ou=users,dc=example,dc=com'')],
      example_data, None) \<and>
   resourceLDAPGroupRead empty_conn
     (example_data\<lparr>Id := ''cn=mygroup,ou=users,dc=example,dc=com''\<rparr>) =
     ([SearchCall (NewSearchRequest_group ''cn=mygroup,ou=users,dc=example,dc=com'')],
      example_data, None) \<and>
   resourceLDAPGroupRead failing_conn
     (example_data\<lparr>Id := ''cn=mygroup,ou=users,dc=example,dc=com''\<rparr>) =
     ([SearchCall (NewSearchRequest_group ''cn=mygroup,ou=users,dc=example,dc=com'')],
      example_data\<lparr>Id := ''cn=mygroup,ou=users,dc=example,dc=com''\<rparr>,
      Some (OtherError ''connection reset''))"
  using read_absent [of absent_conn "example_data\<lparr>Id := ''cn=mygroup,ou=users,dc=example,dc=com''\<rparr>"]
    read_absent [of empty_conn "example_data\<lparr>Id := ''cn=mygroup,ou=users,dc=example,dc=com''\<rparr>"]
    read_absent [of failing_conn "example_data\<lparr>Id := ''cn=mygroup,ou=users,dc=example,dc=com''\<rparr>"]
  by (simp add: absent_conn_def empty_conn_def failing_conn_def example_data_def example_group_def)

section \<open>The CN of the create\<close>

text \<open>
  C8. The first component of a DN is its text up to the first comma. Deriving the CN
  fails exactly when that component is not a \<open>cn=\<close> pair (in either case of the
  letters); when it succeeds, the CN is the component without its first three
  characters. A create that reaches the directory sends a request that starts with the
  \<open>objectClass\<close> attribute and the \<open>cn\<close> attribute of the derived CN, and a create
  whose validation passes on a DN with a \<open>cn=\<close> pair does reach it.
\<close>

theorem deriveCNFromDN_cn_pair:
  "(\<exists>rest. s = firstComponent s @ rest \<and> CHR '','' \<notin> set (firstComponent s) \<and>
           (rest = [] \<or> hd rest = CHR '','')) \<and>
   ((\<exists>err. deriveCNFromDN s = Inl err) \<longleftrightarrow> \<not> isCNPair (firstComponent s)) \<and>
   (\<forall>cn. deriveCNFromDN s = Inr cn \<longrightarrow>
      (\<exists>pre. length pre = 3 \<and> firstComponent s = pre @ cn)) \<and>
   (\<forall>request. AddCall request \<in> set (fst (resourceLDAPGroupCreate client d)) \<longrightarrow>
      (\<exists>cn. deriveCNFromDN (key_dn (current d)) = Inr cn \<and>
         take 2 (Attributes request) =
           [Attribute ''objectClass'' (createObjectClasses d), Attribute ''cn'' [cn]])) \<and>
   (validateObjectClasses (createObjectClasses d) d = [] \<and>
      isCNPair (firstComponent (key_dn (current d))) \<longrightarrow>
      (\<exists>request. AddCall request \<in> set (fst (resourceLDAPGroupCreate client d))))"
proof -
  have p1: "\<exists>rest. s = firstComponent s @ rest \<and> CHR '','' \<notin> set (firstComponent s) \<and>
           (rest = [] \<or> hd rest = CHR '','')"
  proof (intro exI [of _ "dropWhile (\<lambda>c. c \<noteq> CHR '','') s"] conjI)
    show "s = firstComponent s @ dropWhile (\<lambda>c. c \<noteq> CHR '','') s"
      by (simp add: firstComponent_def)
    show "CHR '','' \<notin> set (firstComponent s)"
      by (auto simp: firstComponent_def dest: set_takeWhileD)
    show "dropWhile (\<lambda>c. c \<noteq> CHR '','') s = [] \<or> hd (dropWhile (\<lambda>c. c \<noteq> CHR '','') s) = CHR '',''"
      using hd_dropWhile [of "\<lambda>c. c \<noteq> CHR '',''" s] by auto
  qed
  have p2: "(\<exists>err. deriveCNFromDN s = Inl err) \<longleftrightarrow> \<not> isCNPair (firstComponent s)"
    by (simp add: deriveCNFromDN_eq)
  have p3: "\<exists>pre. length pre = 3 \<and> firstComponent s = pre @ cn" if "deriveCNFromDN s = Inr cn" for cn
  proof -
    from that have pair: "isCNPair (firstComponent s)" and cn: "cn = drop 3 (firstComponent s)"
      by (auto simp: deriveCNFromDN_eq split: if_splits)
    from pair have "3 \<le> length (firstComponent s)"
      by (auto simp: isCNPair_def split: list.splits)
    then have "length (take 3 (firstComponent s)) = 3" by simp
    moreover have "firstComponent s = take 3 (firstComponent s) @ cn"
      by (simp add: cn)
    ultimately show ?thesis by blast
  qed
  have p4: "\<exists>cn. deriveCNFromDN (key_dn (current d)) = Inr cn \<and>
         take 2 (Attributes request) =
           [Attribute ''objectClass'' (createObjectClasses d), Attribute ''cn'' [cn]]"
    if "AddCall request \<in> set (fst (resourceLDAPGroupCreate client d))" for request
  proof -
    let ?base = "AddRequest (key_dn (current d))
                      [Attribute ''objectClass'' (createObjectClasses d),
                       Attribute ''cn'' [drop 3 (firstComponent (key_dn (current d)))]]"
    from that have pair: "isCNPair (firstComponent (key_dn (current d)))"
      and req: "request = createOptionalAttributes ?base d"
      by (auto simp: create_calls Let_def split: if_splits)
    obtain extra where "Attributes request = Attributes ?base @ extra"
      using createOptionalAttributes_prefix [of ?base d] req by blast
    then have "take 2 (Attributes request) = Attributes ?base" by simp
    with pair show ?thesis by (simp add: deriveCNFromDN_eq)
  qed
  have p5: "\<exists>request. AddCall request \<in> set (fst (resourceLDAPGroupCreate client d))"
    if "validateObjectClasses (createObjectClasses d) d = []"
      "isCNPair (firstComponent (key_dn (current d)))"
    using that by (simp add: create_calls Let_def)
  from p1 p2 p3 p4 p5 show ?thesis by blast
qed

theorem deriveCNFromDN_cn_pair_witness:
  "deriveCNFromDN ''cn=mygroup,ou=users,dc=example,dc=com'' = Inr ''mygroup'' \<and>
   deriveCNFromDN ''ou=users,dc=example,dc=com'' = Inl (Errorf ''CN not found in DN'') \<and>
   (\<exists>request. AddCall request \<in> set (fst (resourceLDAPGroupCreate example_conn example_data)) \<and>
      take 2 (Attributes request) =
        [Attribute ''objectClass'' [''posixGroup''], Attribute ''cn'' [''mygroup'']])"
proof -
  have a: "deriveCNFromDN ''cn=mygroup,ou=users,dc=example,dc=com'' = Inr ''mygroup''"
    by (simp add: deriveCNFromDN_eq firstComponent_def isCNPair_def)
  have b: "deriveCNFromDN ''ou=users,dc=example,dc=com'' = Inl (Errorf ''CN not found in DN'')"
    by (simp add: deriveCNFromDN_eq firstComponent_def isCNPair_def)
  have v: "validateObjectClasses (createObjectClasses example_data) example_data = []"
    by (simp add: validateObjectClasses_eq GetOk_int_def example_data_def example_group_def)
  have p: "isCNPair (firstComponent (key_dn (current example_data)))"
    by (simp add: firstComponent_def isCNPair_def example_data_def example_group_def)
  have oc: "createObjectClasses example_data = [''posixGroup'']"
    by (simp add: createObjectClasses_def GetOk_set_def example_data_def example_group_def)
  have dn: "key_dn (current example_data) = ''cn=mygroup,ou=users,dc=example,dc=com''"
    by (simp add: example_data_def example_group_def)
  note t = deriveCNFromDN_cn_pair [of "''cn=mygroup,ou=users,dc=example,dc=com''" example_conn example_data]
  from t v p obtain request
    where r: "AddCall request \<in> set (fst (resourceLDAPGroupCreate example_conn example_data))"
    by blast
  with t have "take 2 (Attributes request) =
        [Attribute ''objectClass'' [''posixGroup''], Attribute ''cn'' [''mygroup'']]"
    using a oc dn by auto
  with a b r show ?thesis by blast
qed

section \<open>The default object classes\<close>

text \<open>
  C10. When the resource data gives no object class, the create takes the list
  \<open>["posixGroup"]\<close>: it is the \<open>objectClass\<close> attribute of the request that is sent,
  and the validation runs against it, so that a create without \<open>gid_number\<close> fails
  before any call and a create that returns no error had \<open>gid_number\<close> present.
\<close>

theorem create_default_object_classes:
  assumes "key_object_classes (current d) = []"
  shows "createObjectClasses d = [''posixGroup''] \<and>
     (\<not> GetOk_int (key_gid_number (current d)) \<longrightarrow>
        resourceLDAPGroupCreate client d =
          ([], d, Some (ValidationFailed (key_dn (current d)) [missing_gid_number]))) \<and>
     (\<forall>request. AddCall request \<in> set (fst (resourceLDAPGroupCreate client d)) \<longrightarrow>
        hd (Attributes request) = Attribute ''objectClass'' [''posixGroup'']) \<and>
     (snd (snd (resourceLDAPGroupCreate client d)) = None \<longrightarrow>
        GetOk_int (key_gid_number (current d))) \<and>
     (GetOk_int (key_gid_number (current d)) \<and> isCNPair (firstComponent (key_dn (current d))) \<longrightarrow>
        (\<exists>request. hd (fst (resourceLDAPGroupCreate client d)) = AddCall request \<and>
           hd (Attributes request) = Attribute ''objectClass'' [''posixGroup'']))"
proof -
  from assms have oc: "createObjectClasses d = [''posixGroup'']"
    by (simp add: createObjectClasses_def GetOk_set_def)
  have v: "validateObjectClasses [''posixGroup''] d =
        (if GetOk_int (key_gid_number (current d)) then [] else [missing_gid_number])"
    by simp
  have p2: "resourceLDAPGroupCreate client d =
          ([], d, Some (ValidationFailed (key_dn (current d)) [missing_gid_number]))"
    if "\<not> GetOk_int (key_gid_number (current d))"
    using that by (simp add: resourceLDAPGroupCreate_def Let_def oc)
  have hd_attr: "hd (Attributes (createOptionalAttributes
                   (AddRequest dnv (Attribute ''objectClass'' [''posixGroup''] # more)) d)) =
                 Attribute ''objectClass'' [''posixGroup'']" for dnv more
    using createOptionalAttributes_prefix
      [of "AddRequest dnv (Attribute ''objectClass'' [''posixGroup''] # more)" d]
    by auto
  have p3: "hd (Attributes request) = Attribute ''objectClass'' [''posixGroup'']"
    if "AddCall request \<in> set (fst (resourceLDAPGroupCreate client d))" for request
    using that hd_attr by (auto simp: create_calls Let_def oc split: if_splits)
  have p4: "GetOk_int (key_gid_number (current d))"
    if "snd (snd (resourceLDAPGroupCreate client d)) = None"
  proof (rule ccontr)
    assume "\<not> GetOk_int (key_gid_number (current d))"
    then have "snd (snd (resourceLDAPGroupCreate client d)) \<noteq> None"
      by (simp add: p2)
    with that show False by simp
  qed
  have p5: "\<exists>request. hd (fst (resourceLDAPGroupCreate client d)) = AddCall request \<and>
           hd (Attributes request) = Attribute ''objectClass'' [''posixGroup'']"
    if "GetOk_int (key_gid_number (current d))" "isCNPair (firstComponent (key_dn (current d)))"
    using that hd_attr by (simp add: create_calls Let_def oc)
  from oc p2 p3 p4 p5 show ?thesis by blast
qed


theorem create_default_object_classes_witness:
  "key_object_classes (current example_data) = [] \<and>
   hd (fst (resourceLDAPGroupCreate example_conn example_data)) =
     AddCall (AddRequest ''cn=mygroup,ou=users,dc=example,dc=com''
       [Attribute ''objectClass'' [''posixGroup''], Attribute ''cn'' [''mygroup''],
        Attribute ''description'' [''My Group''], Attribute ''gidNumber'' [''1000'']]) \<and>
   key_object_classes (current no_gid_data) = [] \<and>
   resourceLDAPGroupCreate example_conn no_gid_data =
     ([], no_gid_data,
      Some (ValidationFailed ''cn=mygroup,ou=users,dc=example,dc=com'' [missing_gid_number]))"
proof -
  have a: "key_object_classes (current example_data) = []"
    by (simp add: example_data_def example_group_def)
  have b: "key_object_classes (current no_gid_data) = []"
    by (simp add: no_gid_data_def example_group_def)
  have c: "\<not> GetOk_int (key_gid_number (current no_gid_data))"
    by (simp add: GetOk_int_def no_gid_data_def)
  have d: "key_dn (current no_gid_data) = ''cn=mygroup,ou=users,dc=example,dc=com''"
    by (simp add: no_gid_data_def example_group_def)
  have e: "hd (fst (resourceLDAPGroupCreate example_conn example_data)) =
     AddCall (AddRequest ''cn=mygroup,ou=users,dc=example,dc=com''
       [Attribute ''objectClass'' [''posixGroup''], Attribute ''cn'' [''mygroup''],
        Attribute ''description'' [''My Group''], Attribute ''gidNumber'' [''1000'']])"
    using create_default_object_classes [OF a, of example_conn]
    by (simp add: create_calls Let_def validateObjectClasses_eq firstComponent_def isCNPair_def
        createOptionalAttributes_def AddRequest_Attribute_def GetOk_int_def GetOk_string_def
        GetOk_set_def Get_int_def Itoa_def Itoa_nat.simps digit_char_def
        example_data_def example_group_def example_conn_def empty_conn_def)
  from create_default_object_classes [OF b, of example_conn] c d
  have "resourceLDAPGroupCreate example_conn no_gid_data =
     ([], no_gid_data,
      Some (ValidationFailed ''cn=mygroup,ou=users,dc=example,dc=com'' [missing_gid_number]))"
    by simp
  with a b e show ?thesis by simp
qed

section \<open>The members of a group that is read\<close>

lemma readEntry_member:
  "readEntry dnv entry d = (d', None) \<Longrightarrow>
   key_member (current d') =
     (if GetAttributeValues entry ''member'' = [] then key_member (current d)
      else remdups (GetAttributeValues entry ''memberURL''))"
  by (auto simp: readEntry_def Let_def split: if_splits sum.splits)


text \<open>
  C3, on the code. The entry carries one \<open>member\<close> value and no \<open>memberURL\<close>. The
  read succeeds and leaves the \<open>member\<close> state empty: it stores the \<open>memberURL\<close>
  values under \<open>member\<close>, not the \<open>member\<close> values.
\<close>

theorem read_member_from_memberURL:
  "GetAttributeValues example_entry ''member'' = [''uid=a123456,ou=users,dc=example,dc=com''] \<and>
   GetAttributeValues example_entry ''memberURL'' = [] \<and>
   snd (snd (resourceLDAPGroupRead example_conn example_data)) = None \<and>
   key_member (current (fst (snd (resourceLDAPGroupRead example_conn example_data)))) = []"
  by (simp add: resourceLDAPGroupRead_def readEntry_def Let_def GetAttributeValues_def
      GetAttributeValue_def Atoi_def is_digit_def example_entry_def example_conn_def
      empty_conn_def example_data_def example_group_def)

section \<open>The generic attributes of a group that is read\<close>

lemma set_addValues:
  "set (addValues s n vs) = set s \<union> {(n, v) | v. v \<in> set vs}"
  by (induction s n vs rule: addValues.induct) (auto simp: Set_Add_def)

lemma distinct_addValues:
  "distinct s \<Longrightarrow> distinct (addValues s n vs)"
  by (induction s n vs rule: addValues.induct) (auto simp: Set_Add_def)

lemma addValues_append:
  "distinct vs \<Longrightarrow> \<forall>v \<in> set vs. (n, v) \<notin> set s \<Longrightarrow> addValues s n vs = s @ map (Pair n) vs"
proof (induction vs arbitrary: s)
  case Nil
  then show ?case by simp
next
  case (Cons v vs)
  from Cons.prems(2) have a: "Set_Add s (n, v) = s @ [(n, v)]"
    by (simp add: Set_Add_def)
  from Cons.prems have b: "\<forall>w \<in> set vs. (n, w) \<notin> set (s @ [(n, v)])"
    by auto
  from Cons.prems(1) have c: "distinct vs"
    by simp
  from Cons.IH [OF c b] a show ?case
    by simp
qed

lemma set_readAttributes:
  "set (readAttributes dnv attrs s) =
     set s \<union> {(Name a, v) | a v. a \<in> set attrs \<and> \<not> alreadyHandled (Name a) \<and>
                               \<not> isRDN dnv a \<and> v \<in> set (Values a)}"
  by (induction dnv attrs s rule: readAttributes.induct) (auto simp: set_addValues)

lemma distinct_readAttributes:
  "distinct s \<Longrightarrow> distinct (readAttributes dnv attrs s)"
  by (induction dnv attrs s rule: readAttributes.induct) (auto simp: distinct_addValues)

lemma readAttributes_concat:
  "distinct (map Name attrs) \<Longrightarrow> \<forall>a \<in> set attrs. distinct (Values a) \<Longrightarrow>
   \<forall>a \<in> set attrs. \<forall>v. (Name a, v) \<notin> set s \<Longrightarrow>
   readAttributes dnv attrs s =
     s @ concat (map (\<lambda>a. map (Pair (Name a)) (Values a))
                  (filter (\<lambda>a. \<not> alreadyHandled (Name a) \<and> \<not> isRDN dnv a) attrs))"
proof (induction attrs arbitrary: s)
  case Nil
  then show ?case by simp
next
  case (Cons a attrs)
  have fresh: "\<forall>v \<in> set (Values a). (Name a, v) \<notin> set s"
    using Cons.prems(3) by simp
  have vals: "distinct (Values a)"
    using Cons.prems(2) by simp
  have step: "addValues s (Name a) (Values a) = s @ map (Pair (Name a)) (Values a)"
    using vals fresh by (rule addValues_append)
  have d: "distinct (map Name attrs)" and e: "\<forall>b \<in> set attrs. distinct (Values b)"
    using Cons.prems(1,2) by simp_all
  have other: "Name b \<noteq> Name a" if "b \<in> set attrs" for b
  proof -
    have "Name a \<notin> Name ` set attrs"
      using Cons.prems(1) by simp
    moreover have "Name b \<in> Name ` set attrs"
      using that by (rule imageI)
    ultimately show ?thesis by auto
  qed
  have rest': "\<forall>b \<in> set attrs. \<forall>w. (Name b, w) \<notin> set s"
    using Cons.prems(3) by simp
  have rest: "\<forall>b \<in> set attrs. \<forall>w. (Name b, w) \<notin> set (s @ map (Pair (Name a)) (Values a))"
  proof (intro ballI allI)
    fix b w
    assume b: "b \<in> set attrs"
    with rest' have "(Name b, w) \<notin> set s" by simp
    moreover from other [OF b] have "(Name b, w) \<notin> set (map (Pair (Name a)) (Values a))"
      by auto
    ultimately show "(Name b, w) \<notin> set (s @ map (Pair (Name a)) (Values a))"
      by simp
  qed
  show ?case
  proof (cases "alreadyHandled (Name a) \<or> isRDN dnv a")
    case True
    then show ?thesis
      using Cons.IH [OF d e rest'] by auto
  next
    case False
    then show ?thesis
      using Cons.IH [OF d e rest] step by simp
  qed
qed

lemma readEntry_attributes:
  "readEntry dnv entry d = (d', None) \<Longrightarrow>
   key_attributes (current d') = readAttributes dnv (EAttributes entry) []"
  by (auto simp: readEntry_def Let_def split: if_splits sum.splits)

lemma read_entry:
  "conn_Search client (NewSearchRequest_group (key_dn (current d))) = Inr (entry # entries) \<Longrightarrow>
   resourceLDAPGroupRead client d = (calls, d', err) \<Longrightarrow>
   readEntry (key_dn (current d)) entry d = (d', err)"
  by (auto simp: resourceLDAPGroupRead_def Let_def split: prod.splits)

text \<open>
  C4. In an entry that names each attribute once, an attribute with a single value
  whose \<open>name=value\<close> is a prefix of the DN puts no entry for that name and value in
  the generic set: not in what the loop over the attributes computes, and not in the
  \<open>attributes\<close> state that a successful read of such an entry leaves.
\<close>

theorem read_excludes_RDN:
  assumes "distinct (map Name attrs)"
    and "EntryAttribute n [v] \<in> set attrs"
    and "HasPrefix dnv (n @ ''='' @ v)"
  shows "(n, v) \<notin> set (readAttributes dnv attrs []) \<and>
     (\<forall>client d edn entries calls d'.
        key_dn (current d) = dnv \<and>
        conn_Search client (NewSearchRequest_group dnv) = Inr (Entry edn attrs # entries) \<and>
        resourceLDAPGroupRead client d = (calls, d', None) \<longrightarrow>
        (n, v) \<notin> set (key_attributes (current d')))"
proof -
  have rdn: "isRDN dnv (EntryAttribute n [v])"
    using assms(3) by (simp add: isRDN_def)
  have "a = EntryAttribute n [v]" if "a \<in> set attrs" "Name a = n" for a
    using assms(1,2) that by (metis EntryAttribute.sel(1) distinct_map inj_onD)
  with rdn have bag: "(n, v) \<notin> set (readAttributes dnv attrs [])"
    by (auto simp: set_readAttributes)
  have "(n, v) \<notin> set (key_attributes (current d'))"
    if "key_dn (current d) = dnv"
      "conn_Search client (NewSearchRequest_group dnv) = Inr (Entry edn attrs # entries)"
      "resourceLDAPGroupRead client d = (calls, d', None)"
    for client d edn entries calls d'
    using read_entry [of client d "Entry edn attrs" entries calls d' None] that bag
    by (auto dest: readEntry_attributes)
  with bag show ?thesis by blast
qed

theorem read_excludes_RDN_witness:
  "(''uid'', ''a123456'') \<notin> set (readAttributes person_dn person_attributes []) \<and>
   readAttributes person_dn person_attributes [] =
     [(''sn'', ''Doe''), (''mail'', ''john.doe@example.com''), (''mail'', ''jdoe@example.com'')]"
proof -
  have a: "distinct (map Name person_attributes)"
    by (simp add: person_attributes_def)
  have b: "EntryAttribute ''uid'' [''a123456''] \<in> set person_attributes"
    by (simp add: person_attributes_def)
  have c: "HasPrefix person_dn (''uid'' @ ''='' @ ''a123456'')"
    by (simp add: HasPrefix_def person_dn_def)
  have d: "readAttributes person_dn person_attributes [] =
     [(''sn'', ''Doe''), (''mail'', ''john.doe@example.com''), (''mail'', ''jdoe@example.com'')]"
    by (simp add: person_attributes_def person_dn_def alreadyHandled_def isRDN_def HasPrefix_def
        Set_Add_def)
  from read_excludes_RDN [OF a b c, THEN conjunct1] d show ?thesis by simp
qed

text \<open>
  C5. The generic set that the read computes holds no entry named \<open>objectClass\<close>,
  \<open>cn\<close>, \<open>description\<close>, \<open>gidNumber\<close>, \<open>memberUid\<close>, \<open>uniqueMember\<close>,
  \<open>memberURL\<close> or \<open>member\<close>; it holds no entry twice; every value of every other
  attribute that is not the RDN is in it under the name of its attribute. For an entry
  that names each attribute once and repeats no value, the set is, in order, one entry
  for each value of each such attribute: nothing is merged and nothing is dropped.
\<close>

theorem read_generic_bag:
  "(\<forall>n \<in> {''objectClass'', ''cn'', ''description'', ''gidNumber'', ''memberUid'',
            ''uniqueMember'', ''memberURL'', ''member''}.
      \<forall>v. (n, v) \<notin> set (readAttributes dnv attrs [])) \<and>
   distinct (readAttributes dnv attrs []) \<and>
   (\<forall>a \<in> set attrs.
      Name a \<notin> {''objectClass'', ''cn'', ''description'', ''gidNumber'', ''memberUid'',
                 ''uniqueMember'', ''memberURL'', ''member''} \<and> \<not> isRDN dnv a \<longrightarrow>
      (\<forall>v \<in> set (Values a). (Name a, v) \<in> set (readAttributes dnv attrs []))) \<and>
   (distinct (map Name attrs) \<and> (\<forall>a \<in> set attrs. distinct (Values a)) \<longrightarrow>
      readAttributes dnv attrs [] =
        concat (map (\<lambda>a. map (Pair (Name a)) (Values a))
                 (filter (\<lambda>a. Name a \<notin> {''objectClass'', ''cn'', ''description'', ''gidNumber'',
                                          ''memberUid'', ''uniqueMember'', ''memberURL'', ''member''} \<and>
                               \<not> isRDN dnv a) attrs)))"
proof -
  have p1: "\<forall>n \<in> {''objectClass'', ''cn'', ''description'', ''gidNumber'', ''memberUid'',
            ''uniqueMember'', ''memberURL'', ''member''}.
      \<forall>v. (n, v) \<notin> set (readAttributes dnv attrs [])"
    by (auto simp: set_readAttributes alreadyHandled_def)
  have p2: "distinct (readAttributes dnv attrs [])"
    by (simp add: distinct_readAttributes)
  have p3: "\<forall>a \<in> set attrs.
      Name a \<notin> {''objectClass'', ''cn'', ''description'', ''gidNumber'', ''memberUid'',
                 ''uniqueMember'', ''memberURL'', ''member''} \<and> \<not> isRDN dnv a \<longrightarrow>
      (\<forall>v \<in> set (Values a). (Name a, v) \<in> set (readAttributes dnv attrs []))"
    by (auto simp: set_readAttributes alreadyHandled_def)
  have eq: "(\<lambda>a. Name a \<notin> {''objectClass'', ''cn'', ''description'', ''gidNumber'',
                            ''memberUid'', ''uniqueMember'', ''memberURL'', ''member''} \<and>
                 \<not> isRDN dnv a) =
            (\<lambda>a. \<not> alreadyHandled (Name a) \<and> \<not> isRDN dnv a)"
    by (auto simp: alreadyHandled_def fun_eq_iff)
  have p4: "readAttributes dnv attrs [] =
        concat (map (\<lambda>a. map (Pair (Name a)) (Values a))
                 (filter (\<lambda>a. Name a \<notin> {''objectClass'', ''cn'', ''description'', ''gidNumber'',
                                          ''memberUid'', ''uniqueMember'', ''memberURL'', ''member''} \<and>
                               \<not> isRDN dnv a) attrs))"
    if "distinct (map Name attrs)" "\<forall>a \<in> set attrs. distinct (Values a)"
    unfolding eq using readAttributes_concat [of attrs "[]" dnv] that by simp
  show ?thesis
  proof (intro conjI)
    show "\<forall>n \<in> {''objectClass'', ''cn'', ''description'', ''gidNumber'', ''memberUid'',
            ''uniqueMember'', ''memberURL'', ''member''}.
      \<forall>v. (n, v) \<notin> set (readAttributes dnv attrs [])"
      by (rule p1)
    show "distinct (readAttributes dnv attrs [])"
      by (rule p2)
    show "\<forall>a \<in> set attrs.
      Name a \<notin> {''objectClass'', ''cn'', ''description'', ''gidNumber'', ''memberUid'',
                 ''uniqueMember'', ''memberURL'', ''member''} \<and> \<not> isRDN dnv a \<longrightarrow>
      (\<forall>v \<in> set (Values a). (Name a, v) \<in> set (readAttributes dnv attrs []))"
      by (rule p3)
    show "distinct (map Name attrs) \<and> (\<forall>a \<in> set attrs. distinct (Values a)) \<longrightarrow>
      readAttributes dnv attrs [] =
        concat (map (\<lambda>a. map (Pair (Name a)) (Values a))
                 (filter (\<lambda>a. Name a \<notin> {''objectClass'', ''cn'', ''description'', ''gidNumber'',
                                          ''memberUid'', ''uniqueMember'', ''memberURL'', ''member''} \<and>
                               \<not> isRDN dnv a) attrs))"
      by (intro impI, elim conjE, rule p4)
  qed
qed

theorem read_generic_bag_witness:
  "readAttributes ''cn=mygroup,ou=users,dc=example,dc=com'' (EAttributes example_entry) [] =
     [(''businessCategory'', ''My Business Category''), (''mail'', ''a@x.com''), (''mail'', ''b@x.com'')]"
proof -
  have a: "distinct (map Name (EAttributes example_entry))"
    by (simp add: example_entry_def)
  have b: "\<forall>a \<in> set (EAttributes example_entry). distinct (Values a)"
    by (simp add: example_entry_def)
  note t = read_generic_bag [of "''cn=mygroup,ou=users,dc=example,dc=com''" "EAttributes example_entry"]
  from t [THEN conjunct2, THEN conjunct2, THEN conjunct2] a b
  have "readAttributes ''cn=mygroup,ou=users,dc=example,dc=com'' (EAttributes example_entry) [] =
        concat (map (\<lambda>a. map (Pair (Name a)) (Values a))
                 (filter (\<lambda>a. Name a \<notin> {''objectClass'', ''cn'', ''description'', ''gidNumber'',
                                          ''memberUid'', ''uniqueMember'', ''memberURL'', ''member''} \<and>
                               \<not> isRDN ''cn=mygroup,ou=users,dc=example,dc=com'' a)
                    (EAttributes example_entry)))"
    by (rule mp [OF _ conjI])
  then show ?thesis
    by (simp add: example_entry_def isRDN_def HasPrefix_def)
qed

section \<open>The set-valued attributes in an update\<close>

lemma addEach_eq:
  "addEach request n xs =
     ModifyRequest (MDN request)
       (Changes request @ map (\<lambda>x. Change AddAttribute (PartialAttribute n [x])) xs)"
  by (induction request n xs rule: addEach.induct)
    (simp_all add: ModifyRequest_Add_def appendChange_def)

lemma removeEach_eq:
  "removeEach request n xs =
     ModifyRequest (MDN request)
       (Changes request @ map (\<lambda>x. Change DeleteAttribute (PartialAttribute n [x])) xs)"
  by (induction request n xs rule: removeEach.induct)
    (simp_all add: ModifyRequest_Delete_def appendChange_def)

lemma set_Difference: "set (Difference s other) = set s - set other"
  by (auto simp: Difference_def)

lemma distinct_Difference: "distinct s \<Longrightarrow> distinct (Difference s other)"
  by (simp add: Difference_def)

lemma updateLDAPAttributeSet_eq:
  "updateLDAPAttributeSet request d tf n =
     (ModifyRequest (MDN request)
        (Changes request @
         setDeltaChanges n (getStringSet (prior d) tf) (getStringSet (current d) tf)), None)"
proof (cases "HasChange_set (getStringSet (prior d) tf) (getStringSet (current d) tf)")
  case True
  then show ?thesis
    by (simp add: updateLDAPAttributeSet_def Let_def addEach_eq removeEach_eq setDeltaChanges_def)
next
  case False
  then have "set (getStringSet (prior d) tf) = set (getStringSet (current d) tf)"
    by (simp add: HasChange_set_def)
  then have "Difference (getStringSet (current d) tf) (getStringSet (prior d) tf) = []"
    "Difference (getStringSet (prior d) tf) (getStringSet (current d) tf) = []"
    by (simp_all add: Difference_def)
  with False show ?thesis
    by (cases request) (simp add: updateLDAPAttributeSet_def Let_def setDeltaChanges_def)
qed

lemma updateAttributes_eq:
  "\<exists>post. updateAttributes request d = ModifyRequest (MDN request) (Changes request @ post)"
proof (cases request)
  case (ModifyRequest dnv cs)
  then show ?thesis
    by (auto simp: updateAttributes_def Let_def appendChanges_def computeDeltas_def)
qed

lemma buildModifyRequest_eq:
  "\<exists>pre post. buildModifyRequest d =
     Inr (ModifyRequest (key_dn (current d))
       (pre @
        setDeltaChanges ''member'' (key_member (prior d)) (key_member (current d)) @
        setDeltaChanges ''memberUid'' (key_member_uid (prior d)) (key_member_uid (current d)) @
        setDeltaChanges ''uniqueMember'' (key_unique_member (prior d)) (key_unique_member (current d)) @
        setDeltaChanges ''memberURL'' (key_member_url (prior d)) (key_member_url (current d)) @
        post))"
proof -
  define r0 where "r0 = ModifyRequest (key_dn (current d)) []"
  define r1 where "r1 = (if key_description (prior d) \<noteq> key_description (current d)
                     then ModifyRequest_Replace r0 ''description'' [key_description (current d)]
                     else r0)"
  define r2 where "r2 = (if Get_int (key_gid_number (prior d)) \<noteq> Get_int (key_gid_number (current d))
                     then ModifyRequest_Replace r1 ''gidNumber''
                            [Itoa (Get_int (key_gid_number (current d)))]
                     else r1)"
  have m: "MDN r2 = key_dn (current d)"
    by (simp add: r2_def r1_def r0_def ModifyRequest_Replace_def appendChange_def)
  define r3 where "r3 = ModifyRequest (key_dn (current d)) (Changes r2 @
        setDeltaChanges ''member'' (key_member (prior d)) (key_member (current d)) @
        setDeltaChanges ''memberUid'' (key_member_uid (prior d)) (key_member_uid (current d)) @
        setDeltaChanges ''uniqueMember'' (key_unique_member (prior d)) (key_unique_member (current d)) @
        setDeltaChanges ''memberURL'' (key_member_url (prior d)) (key_member_url (current d)))"
  have "buildModifyRequest d = Inr (updateAttributes r3 d)"
    unfolding buildModifyRequest_def Let_def NewModifyRequest_def
    by (simp add: updateLDAPAttributeSet_eq getStringSet_def m r3_def r2_def r1_def r0_def
        ModifyRequest_Replace_def appendChange_def)
  moreover obtain post where "updateAttributes r3 d = ModifyRequest (MDN r3) (Changes r3 @ post)"
    using updateAttributes_eq by blast
  ultimately have "buildModifyRequest d = Inr (ModifyRequest (key_dn (current d)) (Changes r2 @
        setDeltaChanges ''member'' (key_member (prior d)) (key_member (current d)) @
        setDeltaChanges ''memberUid'' (key_member_uid (prior d)) (key_member_uid (current d)) @
        setDeltaChanges ''uniqueMember'' (key_unique_member (prior d)) (key_unique_member (current d)) @
        setDeltaChanges ''memberURL'' (key_member_url (prior d)) (key_member_url (current d)) @ post))"
    by (simp add: r3_def)
  then show ?thesis by blast
qed


lemma count_list_distinct:
  "distinct xs \<Longrightarrow> count_list xs x = (if x \<in> set xs then 1 else 0)"
  by (induction xs) auto

lemma count_list_map_inj:
  "inj f \<Longrightarrow> count_list (map f xs) (f x) = count_list xs x"
  by (induction xs) (auto dest: injD)

lemma count_list_map_other:
  "\<forall>y. f y \<noteq> c \<Longrightarrow> count_list (map f xs) c = 0"
  by (induction xs) auto

lemma applyChanges_append:
  "applyChanges (cs @ cs') st =
     (case applyChanges cs st of Inl err \<Rightarrow> Inl err | Inr st' \<Rightarrow> applyChanges cs' st')"
  by (induction cs arbitrary: st) (auto split: sum.splits)

lemma applyChanges_adds:
  "distinct xs \<Longrightarrow> set xs \<inter> set (st n) = {} \<Longrightarrow>
   applyChanges (map (\<lambda>x. Change AddAttribute (PartialAttribute n [x])) xs) st =
     Inr (st(n := st n @ xs))"
proof (induction xs arbitrary: st)
  case Nil
  then show ?case by simp
next
  case (Cons x xs)
  let ?st = "st(n := st n @ [x])"
  from Cons.prems have a: "applyChange (Change AddAttribute (PartialAttribute n [x])) st = Inr ?st"
    by simp
  from Cons.prems have b: "distinct xs" "set xs \<inter> set (?st n) = {}"
    by auto
  have "applyChanges (map (\<lambda>x. Change AddAttribute (PartialAttribute n [x])) (x # xs)) st =
        applyChanges (map (\<lambda>x. Change AddAttribute (PartialAttribute n [x])) xs) ?st"
    using a by simp
  also have "\<dots> = Inr (?st(n := ?st n @ xs))"
    by (rule Cons.IH [of ?st, OF b])
  also have "\<dots> = Inr (st(n := st n @ x # xs))"
    by simp
  finally show ?case .
qed

lemma applyChanges_deletes:
  "distinct xs \<Longrightarrow> set xs \<subseteq> set (st n) \<Longrightarrow>
   applyChanges (map (\<lambda>x. Change DeleteAttribute (PartialAttribute n [x])) xs) st =
     Inr (st(n := filter (\<lambda>v. v \<notin> set xs) (st n)))"
proof (induction xs arbitrary: st)
  case Nil
  then show ?case by simp
next
  case (Cons x xs)
  let ?st = "st(n := filter (\<lambda>v. v \<notin> set [x]) (st n))"
  from Cons.prems have a: "applyChange (Change DeleteAttribute (PartialAttribute n [x])) st = Inr ?st"
    by simp
  from Cons.prems have b: "distinct xs" "set xs \<subseteq> set (?st n)"
    by auto
  have c: "filter (\<lambda>v. v \<notin> set xs) (filter (\<lambda>v. v \<notin> set [x]) (st n)) =
           filter (\<lambda>v. v \<notin> set (x # xs)) (st n)"
    by (induction "st n") auto
  have "applyChanges (map (\<lambda>x. Change DeleteAttribute (PartialAttribute n [x])) (x # xs)) st =
        applyChanges (map (\<lambda>x. Change DeleteAttribute (PartialAttribute n [x])) xs) ?st"
    using a by simp
  also have "\<dots> = Inr (?st(n := filter (\<lambda>v. v \<notin> set xs) (?st n)))"
    by (rule Cons.IH [of ?st, OF b])
  also have "\<dots> = Inr (st(n := filter (\<lambda>v. v \<notin> set (x # xs)) (st n)))"
    using c by simp
  finally show ?case .
qed

lemma applyChanges_setDeltaChanges:
  assumes "distinct P" "distinct D" "set (st n) = set P"
  shows "\<exists>st'. applyChanges (setDeltaChanges n P D) st = Inr st' \<and> set (st' n) = set D \<and>
           (\<forall>m. m \<noteq> n \<longrightarrow> st' m = st m)"
proof -
  let ?adds = "Difference D P" and ?dels = "Difference P D"
  let ?st1 = "st(n := st n @ ?adds)"
  have a: "applyChanges (map (\<lambda>x. Change AddAttribute (PartialAttribute n [x])) ?adds) st = Inr ?st1"
    using assms by (intro applyChanges_adds) (auto simp: distinct_Difference set_Difference)
  let ?st2 = "?st1(n := filter (\<lambda>v. v \<notin> set ?dels) (?st1 n))"
  have b: "applyChanges (map (\<lambda>x. Change DeleteAttribute (PartialAttribute n [x])) ?dels) ?st1 = Inr ?st2"
    using assms by (intro applyChanges_deletes) (auto simp: distinct_Difference set_Difference)
  have "applyChanges (setDeltaChanges n P D) st = Inr ?st2"
    unfolding setDeltaChanges_def applyChanges_append a using b by simp
  moreover have "set (?st2 n) = set D"
    using assms(3) by (auto simp: set_Difference)
  moreover have "\<forall>m. m \<noteq> n \<longrightarrow> ?st2 m = st m"
    by simp
  ultimately show ?thesis by blast
qed

lemma count_setDeltaChanges_add:
  assumes "distinct D"
  shows "count_list (setDeltaChanges n P D) (Change AddAttribute (PartialAttribute n [x])) =
           (if x \<in> set D - set P then 1 else 0)"
proof -
  have i: "inj (\<lambda>x. Change AddAttribute (PartialAttribute n [x]))"
    by (rule injI) simp
  have "count_list (map (\<lambda>x. Change AddAttribute (PartialAttribute n [x])) (Difference D P))
          (Change AddAttribute (PartialAttribute n [x])) = count_list (Difference D P) x"
    using count_list_map_inj [OF i] by simp
  moreover have "count_list (map (\<lambda>x. Change DeleteAttribute (PartialAttribute n [x])) (Difference P D))
          (Change AddAttribute (PartialAttribute n [x])) = 0"
    by (rule count_list_map_other) simp
  ultimately show ?thesis
    using assms by (simp add: setDeltaChanges_def count_list_distinct distinct_Difference set_Difference)
qed

lemma count_setDeltaChanges_delete:
  assumes "distinct P"
  shows "count_list (setDeltaChanges n P D) (Change DeleteAttribute (PartialAttribute n [x])) =
           (if x \<in> set P - set D then 1 else 0)"
proof -
  have i: "inj (\<lambda>x. Change DeleteAttribute (PartialAttribute n [x]))"
    by (rule injI) simp
  have "count_list (map (\<lambda>x. Change DeleteAttribute (PartialAttribute n [x])) (Difference P D))
          (Change DeleteAttribute (PartialAttribute n [x])) = count_list (Difference P D) x"
    using count_list_map_inj [OF i] by simp
  moreover have "count_list (map (\<lambda>x. Change AddAttribute (PartialAttribute n [x])) (Difference D P))
          (Change DeleteAttribute (PartialAttribute n [x])) = 0"
    by (rule count_list_map_other) simp
  ultimately show ?thesis
    using assms by (simp add: setDeltaChanges_def count_list_distinct distinct_Difference set_Difference)
qed

lemma length_setDeltaChanges:
  assumes "distinct P" "distinct D"
  shows "length (setDeltaChanges n P D) = card (set D - set P) + card (set P - set D)"
proof -
  have "length (Difference D P) = card (set D - set P)"
    using distinct_card [OF distinct_Difference [OF assms(2), of P]] by (simp add: set_Difference)
  moreover have "length (Difference P D) = card (set P - set D)"
    using distinct_card [OF distinct_Difference [OF assms(1), of D]] by (simp add: set_Difference)
  ultimately show ?thesis by (simp add: setDeltaChanges_def)
qed

lemma wellKnownSets_buildModifyRequest:
  assumes "(tf, n) \<in> set wellKnownSets"
  shows "\<exists>pre post. buildModifyRequest d =
     Inr (ModifyRequest (key_dn (current d))
       (pre @ setDeltaChanges n (getStringSet (prior d) tf) (getStringSet (current d) tf) @ post))"
proof -
  obtain pre post where b: "buildModifyRequest d =
     Inr (ModifyRequest (key_dn (current d))
       (pre @
        setDeltaChanges ''member'' (key_member (prior d)) (key_member (current d)) @
        setDeltaChanges ''memberUid'' (key_member_uid (prior d)) (key_member_uid (current d)) @
        setDeltaChanges ''uniqueMember'' (key_unique_member (prior d)) (key_unique_member (current d)) @
        setDeltaChanges ''memberURL'' (key_member_url (prior d)) (key_member_url (current d)) @
        post))"
    using buildModifyRequest_eq by blast
  let ?m = "setDeltaChanges ''member'' (key_member (prior d)) (key_member (current d))"
  let ?u = "setDeltaChanges ''memberUid'' (key_member_uid (prior d)) (key_member_uid (current d))"
  let ?q = "setDeltaChanges ''uniqueMember'' (key_unique_member (prior d)) (key_unique_member (current d))"
  let ?l = "setDeltaChanges ''memberURL'' (key_member_url (prior d)) (key_member_url (current d))"
  from assms consider
    "tf = ''member''" "n = ''member''" | "tf = ''member_uid''" "n = ''memberUid''" |
    "tf = ''unique_member''" "n = ''uniqueMember''" | "tf = ''member_url''" "n = ''memberURL''"
    by (auto simp: wellKnownSets_def)
  then show ?thesis
  proof cases
    case 1
    show ?thesis
      by (intro exI [of _ pre] exI [of _ "?u @ ?q @ ?l @ post"]) (simp add: b 1 getStringSet_def)
  next
    case 2
    show ?thesis
      by (intro exI [of _ "pre @ ?m"] exI [of _ "?q @ ?l @ post"]) (simp add: b 2 getStringSet_def)
  next
    case 3
    show ?thesis
      by (intro exI [of _ "pre @ ?m @ ?u"] exI [of _ "?l @ post"]) (simp add: b 3 getStringSet_def)
  next
    case 4
    show ?thesis
      by (intro exI [of _ "pre @ ?m @ ?u @ ?q"] exI [of _ post]) (simp add: b 4 getStringSet_def)
  qed
qed

text \<open>
  C1. For each of \<open>member\<close>, \<open>memberUid\<close>, \<open>uniqueMember\<close> and \<open>memberURL\<close>, with
  previous values \<open>P\<close> and desired values \<open>D\<close> (each the enumeration of a set):
  \<open>updateLDAPAttributeSet\<close> appends changes to the request, and they are part of the
  request that the update builds; among them there is exactly one Add of \<open>x\<close> for
  each \<open>x\<close> in \<open>D\<close> and not in \<open>P\<close>, exactly one Delete of \<open>x\<close> for each \<open>x\<close> in
  \<open>P\<close> and not in \<open>D\<close>, and nothing else; applied to an entry that holds \<open>P\<close> under
  the attribute, they succeed and leave exactly \<open>D\<close> there, and every other attribute
  as it was.
\<close>

theorem update_set_delta:
  assumes "(tf, n) \<in> set wellKnownSets"
    and "P = getStringSet (prior d) tf" and "D = getStringSet (current d) tf"
    and "distinct P" and "distinct D"
    and "set (st n) = set P"
  shows "\<exists>emitted pre post.
     updateLDAPAttributeSet request d tf n =
       (ModifyRequest (MDN request) (Changes request @ emitted), None) \<and>
     buildModifyRequest d = Inr (ModifyRequest (key_dn (current d)) (pre @ emitted @ post)) \<and>
     (\<forall>x. count_list emitted (Change AddAttribute (PartialAttribute n [x])) =
            (if x \<in> set D - set P then 1 else 0)) \<and>
     (\<forall>x. count_list emitted (Change DeleteAttribute (PartialAttribute n [x])) =
            (if x \<in> set P - set D then 1 else 0)) \<and>
     length emitted = card (set D - set P) + card (set P - set D) \<and>
     (\<exists>st'. applyChanges emitted st = Inr st' \<and> set (st' n) = set D \<and>
            (\<forall>m. m \<noteq> n \<longrightarrow> st' m = st m))"
proof -
  obtain pre post where b: "buildModifyRequest d =
     Inr (ModifyRequest (key_dn (current d)) (pre @ setDeltaChanges n P D @ post))"
    using wellKnownSets_buildModifyRequest [OF assms(1), of d] assms(2,3) by blast
  have u: "updateLDAPAttributeSet request d tf n =
       (ModifyRequest (MDN request) (Changes request @ setDeltaChanges n P D), None)"
    by (simp add: updateLDAPAttributeSet_eq assms(2,3))
  have a: "\<forall>x. count_list (setDeltaChanges n P D) (Change AddAttribute (PartialAttribute n [x])) =
            (if x \<in> set D - set P then 1 else 0)"
    using count_setDeltaChanges_add [OF assms(5)] by blast
  have r: "\<forall>x. count_list (setDeltaChanges n P D) (Change DeleteAttribute (PartialAttribute n [x])) =
            (if x \<in> set P - set D then 1 else 0)"
    using count_setDeltaChanges_delete [OF assms(4)] by blast
  have l: "length (setDeltaChanges n P D) = card (set D - set P) + card (set P - set D)"
    by (rule length_setDeltaChanges [OF assms(4,5)])
  have s: "\<exists>st'. applyChanges (setDeltaChanges n P D) st = Inr st' \<and> set (st' n) = set D \<and>
            (\<forall>m. m \<noteq> n \<longrightarrow> st' m = st m)"
    by (rule applyChanges_setDeltaChanges [of P D st n, OF assms(4,5,6)])
  from u b a r l s show ?thesis
    by (intro exI [of _ "setDeltaChanges n P D"] exI [of _ pre] exI [of _ post] conjI)
qed

theorem update_set_delta_witness:
  "updateLDAPAttributeSet (NewModifyRequest ''cn=mygroup,ou=users,dc=example,dc=com'')
     member_uid_data ''member_uid'' ''memberUid'' =
     (ModifyRequest ''cn=mygroup,ou=users,dc=example,dc=com''
        [Change AddAttribute (PartialAttribute ''memberUid'' [''carol'']),
         Change DeleteAttribute (PartialAttribute ''memberUid'' [''alice''])], None) \<and>
   (\<exists>st'. applyChanges
            [Change AddAttribute (PartialAttribute ''memberUid'' [''carol'']),
             Change DeleteAttribute (PartialAttribute ''memberUid'' [''alice''])]
            member_uid_store = Inr st' \<and>
          set (st' ''memberUid'') = {''bob'', ''carol''})"
proof -
  have h1: "(''member_uid'', ''memberUid'') \<in> set wellKnownSets"
    by (simp add: wellKnownSets_def)
  have h2: "[''alice'', ''bob''] = getStringSet (prior member_uid_data) ''member_uid''"
    by (simp add: getStringSet_def member_uid_data_def)
  have h3: "[''bob'', ''carol''] = getStringSet (current member_uid_data) ''member_uid''"
    by (simp add: getStringSet_def member_uid_data_def)
  have h4: "distinct [''alice'', ''bob'']" by simp
  have h5: "distinct [''bob'', ''carol'']" by simp
  have h6: "set (member_uid_store ''memberUid'') = set [''alice'', ''bob'']"
    by (simp add: member_uid_store_def)
  have e: "updateLDAPAttributeSet (NewModifyRequest ''cn=mygroup,ou=users,dc=example,dc=com'')
     member_uid_data ''member_uid'' ''memberUid'' =
     (ModifyRequest ''cn=mygroup,ou=users,dc=example,dc=com''
        [Change AddAttribute (PartialAttribute ''memberUid'' [''carol'']),
         Change DeleteAttribute (PartialAttribute ''memberUid'' [''alice''])], None)"
    by (simp add: updateLDAPAttributeSet_eq setDeltaChanges_def getStringSet_def
        Difference_def NewModifyRequest_def member_uid_data_def)
  from update_set_delta [where st = member_uid_store and n = "''memberUid''" and
      request = "NewModifyRequest ''cn=mygroup,ou=users,dc=example,dc=com''",
      OF h1 h2 h3 h4 h5 h6]
  obtain emitted st' where
    u: "updateLDAPAttributeSet (NewModifyRequest ''cn=mygroup,ou=users,dc=example,dc=com'')
          member_uid_data ''member_uid'' ''memberUid'' =
        (ModifyRequest (MDN (NewModifyRequest ''cn=mygroup,ou=users,dc=example,dc=com''))
           (Changes (NewModifyRequest ''cn=mygroup,ou=users,dc=example,dc=com'') @ emitted), None)"
    and a: "applyChanges emitted member_uid_store = Inr st'"
    and s: "set (st' ''memberUid'') = set [''bob'', ''carol'']"
    by blast
  from u e have "emitted = [Change AddAttribute (PartialAttribute ''memberUid'' [''carol'']),
         Change DeleteAttribute (PartialAttribute ''memberUid'' [''alice''])]"
    by (simp add: NewModifyRequest_def)
  with a s e show ?thesis by auto
qed

section \<open>The generic attributes in an update\<close>

lemma updateAttributes_changes:
  "updateAttributes request d =
     ModifyRequest (MDN request)
       (Changes request @
        map (\<lambda>e. Change AddAttribute (entryAttribute e))
          (Difference (key_attributes (current d)) (key_attributes (prior d))) @
        map (\<lambda>e. Change DeleteAttribute (entryAttribute e))
          (Difference (key_attributes (prior d)) (key_attributes (current d))))"
proof (cases "HasChange_set (key_attributes (prior d)) (key_attributes (current d))")
  case True
  then show ?thesis
    by (cases request) (auto simp: updateAttributes_def Let_def computeDeltas_def appendChanges_def)
next
  case False
  then have "set (key_attributes (prior d)) = set (key_attributes (current d))"
    by (simp add: HasChange_set_def)
  then have "Difference (key_attributes (current d)) (key_attributes (prior d)) = []"
    "Difference (key_attributes (prior d)) (key_attributes (current d)) = []"
    by (simp_all add: Difference_def)
  with False show ?thesis
    by (cases request) (simp add: updateAttributes_def)
qed

text \<open>
  C2, on \<open>computeDeltas\<close> as the specification describes it. For every previous and
  desired bag, the delta has added entries, which are the desired entries that were not
  there, and removed entries, which are the previous entries that are not desired; its
  changed part is empty. A value that changes under a name is one added entry and one
  removed entry of that name. The update renders the added entries as Add changes and
  the removed ones as Delete changes, and no change of the generic attributes is a
  Replace.
\<close>

theorem computeDeltas_added_removed:
  "(\<exists>added removed. computeDeltas os ns = (added, [], removed) \<and>
      set added = entryAttribute ` (set ns - set os) \<and>
      set removed = entryAttribute ` (set os - set ns)) \<and>
   (v \<noteq> v' \<longrightarrow>
      computeDeltas [(n, v)] [(n, v')] = ([PartialAttribute n [v']], [], [PartialAttribute n [v]])) \<and>
   Changes (updateAttributes (ModifyRequest dnv cs) d) =
     cs @
     map (\<lambda>e. Change AddAttribute (entryAttribute e))
       (Difference (key_attributes (current d)) (key_attributes (prior d))) @
     map (\<lambda>e. Change DeleteAttribute (entryAttribute e))
       (Difference (key_attributes (prior d)) (key_attributes (current d))) \<and>
   (\<forall>c \<in> set (Changes (updateAttributes (ModifyRequest dnv []) d)).
      Operation c \<noteq> ReplaceAttribute)"
proof (intro conjI)
  show "\<exists>added removed. computeDeltas os ns = (added, [], removed) \<and>
      set added = entryAttribute ` (set ns - set os) \<and>
      set removed = entryAttribute ` (set os - set ns)"
    by (simp add: computeDeltas_def set_Difference)
  show "v \<noteq> v' \<longrightarrow>
      computeDeltas [(n, v)] [(n, v')] = ([PartialAttribute n [v']], [], [PartialAttribute n [v]])"
    by (auto simp: computeDeltas_def Difference_def entryAttribute_def)
  show "Changes (updateAttributes (ModifyRequest dnv cs) d) =
     cs @
     map (\<lambda>e. Change AddAttribute (entryAttribute e))
       (Difference (key_attributes (current d)) (key_attributes (prior d))) @
     map (\<lambda>e. Change DeleteAttribute (entryAttribute e))
       (Difference (key_attributes (prior d)) (key_attributes (current d)))"
    by (simp add: updateAttributes_changes)
  show "\<forall>c \<in> set (Changes (updateAttributes (ModifyRequest dnv []) d)).
      Operation c \<noteq> ReplaceAttribute"
    by (auto simp: updateAttributes_changes)
qed

theorem computeDeltas_added_removed_witness:
  "computeDeltas [(''mail'', ''a@x.com'')] [(''mail'', ''b@x.com'')] =
     ([PartialAttribute ''mail'' [''b@x.com'']], [], [PartialAttribute ''mail'' [''a@x.com'']]) \<and>
   Changes (updateAttributes (ModifyRequest ''cn=mygroup,ou=users,dc=example,dc=com'' []) mail_data) =
     [Change AddAttribute (PartialAttribute ''mail'' [''b@x.com''])]"
proof -
  have ne: "''a@x.com'' \<noteq> ''b@x.com''" by simp
  note t = computeDeltas_added_removed [of "[]" "[]" "''a@x.com''" "''b@x.com''" "''mail''"
      "''cn=mygroup,ou=users,dc=example,dc=com''" "[]" mail_data]
  from t ne have a: "computeDeltas [(''mail'', ''a@x.com'')] [(''mail'', ''b@x.com'')] =
     ([PartialAttribute ''mail'' [''b@x.com'']], [], [PartialAttribute ''mail'' [''a@x.com'']])"
    by (elim conjE) (rule mp)
  from t have "Changes (updateAttributes (ModifyRequest ''cn=mygroup,ou=users,dc=example,dc=com'' []) mail_data) =
     [] @
     map (\<lambda>e. Change AddAttribute (entryAttribute e))
       (Difference (key_attributes (current mail_data)) (key_attributes (prior mail_data))) @
     map (\<lambda>e. Change DeleteAttribute (entryAttribute e))
       (Difference (key_attributes (prior mail_data)) (key_attributes (current mail_data)))"
    by (elim conjE)
  then have b: "Changes (updateAttributes (ModifyRequest ''cn=mygroup,ou=users,dc=example,dc=com'' []) mail_data) =
     [Change AddAttribute (PartialAttribute ''mail'' [''b@x.com''])]"
    by (simp add: mail_data_def Difference_def entryAttribute_def)
  from a b show ?thesis by simp
qed

end
